theory Spec2Isabelle
  imports Main
begin

section \<open>The pairing-session router of qr.js\<close>

text \<open>
  qr.js exports an Express router with one route. Each request creates a session
  directory, opens a WhatsApp socket and registers a handler for the socket's
  \<^verbatim>\<open>connection.update\<close> events and a 60 second timer; the handler and the timers share
  the flags \<^verbatim>\<open>qrSent\<close> and \<^verbatim>\<open>connectionSuccess\<close> and the response object \<^verbatim>\<open>res\<close>.

  The model is one record per request, a function per callback of the source, and a
  step function over the events the event loop can deliver. Libraries that are imported
  by qr.js (Express, Baileys, qrcode, fs) are modelled at the calls the source makes:
  what they return is an input of the model.
\<close>

subsection \<open>JavaScript values\<close>

text \<open>
  A value that is a string, \<^verbatim>\<open>null\<close> or \<^verbatim>\<open>undefined\<close> is a \<open>string option\<close>. In a
  condition it is truthy when it is a non-empty string.
\<close>

definition truthy :: "string option \<Rightarrow> bool" where
  "truthy v = (case v of None \<Rightarrow> False | Some x \<Rightarrow> x \<noteq> [])"

text \<open>\<^verbatim>\<open>String.prototype.includes\<close>: the argument occurs at some position of the string.\<close>

fun includes_str :: "string \<Rightarrow> string \<Rightarrow> bool" where
  "includes_str [] t = (t = [])"
| "includes_str (c # cs) t = (take (length t) (c # cs) = t \<or> includes_str cs t)"

subsection \<open>Session id and session directory (lines 28 and 29)\<close>

text \<open>
  Line 28 is the template literal
  \<^verbatim>\<open>`session_\( {Date.now()}_ \){Math.random().toString(36).substr(2, 9)}`\<close>.
  A placeholder of a template literal starts with a dollar sign followed by an opening
  brace; the literal has no dollar sign, so it has no placeholder and its braces are
  characters of the string. A backslash before a parenthesis escapes the parenthesis
  to itself. The value of \<^verbatim>\<open>Date.now()\<close> and the suffix cut from \<^verbatim>\<open>Math.random()\<close>
  are the two arguments; the literal uses neither.
\<close>

definition sessionId :: "int \<Rightarrow> string \<Rightarrow> string" where
  "sessionId now suffix = ''session_( {Date.now()}_ ){Math.random().toString(36).substr(2, 9)}''"

definition sessionDir :: "string \<Rightarrow> string" where
  "sessionDir sid = ''./qr_sessions/'' @ sid"

definition credsPath :: "string \<Rightarrow> string" where
  "credsPath d = d @ ''/creds.json''"

subsection \<open>The Express response\<close>

text \<open>
  \<^verbatim>\<open>res.status(c)\<close> stores the status code. \<^verbatim>\<open>res.json(b)\<close> sets the content type
  header and sends; once a response has been sent, setting a header throws
  \<^verbatim>\<open>ERR_HTTP_HEADERS_SENT\<close> (the "headers already sent" error of the spec, section 4.2).
  \<open>sent\<close> is what went out on the wire; \<^verbatim>\<open>res.headersSent\<close> reads it.
\<close>

datatype exn = ERR_HTTP_HEADERS_SENT | RenderRejected | SendRejected

definition rarrow :: string where
  "rarrow = [CHR 0xE2, CHR 0x86, CHR 0x92]"

definition endash :: string where
  "endash = [CHR 0xE2, CHR 0x80, CHR 0x93]"

datatype body =
    QrBody bool string string string "string list"
  | ErrorBody string

definition qr_message :: string where
  "qr_message = ''Scan this QR code with WhatsApp '' @ rarrow @ '' Linked Devices''"

definition qr_instructions :: "string list" where
  "qr_instructions =
     [''Open WhatsApp on your phone'',
      ''Go to Settings '' @ rarrow @ '' Linked Devices'',
      ''Tap '' @ [CHR 0x27] @ ''Link a Device'' @ [CHR 0x27],
      ''Point your camera at this QR code'']"

record response =
  statusCode :: nat
  sent :: "(nat \<times> body) option"

definition headersSent :: "response \<Rightarrow> bool" where
  "headersSent r = (sent r \<noteq> None)"

definition status :: "nat \<Rightarrow> response \<Rightarrow> response" where
  "status c r = r\<lparr>statusCode := c\<rparr>"

definition json :: "body \<Rightarrow> response \<Rightarrow> exn + response" where
  "json b r =
     (if headersSent r then Inl ERR_HTTP_HEADERS_SENT
      else Inr (r\<lparr>sent := Some (statusCode r, b)\<rparr>))"

subsection \<open>Socket events, messages, console lines, timers\<close>

datatype connection_state = Connecting | Open | Close

text \<open>
  The three fields the handler destructures from an update; \<open>lastDisconnect\<close> is the
  value of \<^verbatim>\<open>lastDisconnect?.error?.output?.statusCode\<close>.
\<close>

record update =
  qr :: "string option"
  connection :: "connection_state option"
  lastDisconnect :: "int option"

datatype fixed_text = WelcomeCaption | ClosingText

datatype payload =
    DocumentMsg string string string
  | ImageMsg string fixed_text
  | AudioMsg string string bool "nat list"
  | TextMsg fixed_text

definition credsDocument :: "string \<Rightarrow> payload" where
  "credsDocument content = DocumentMsg content ''application/json'' ''creds.json''"

definition welcomeImage :: payload where
  "welcomeImage = ImageMsg ''./media/loft.jpg'' WelcomeCaption"

definition welcomeAudio :: payload where
  "welcomeAudio =
     AudioMsg ''./media/roft.mp3'' ''audio/mp4'' False
       [10, 40, 80, 100, 90, 70, 90, 50, 80, 30, 90, 20, 100]"

definition finalMessage :: payload where
  "finalMessage = TextMsg ClosingText"

datatype rejection = Nullish | Err "string option"

datatype log_line =
    SessionFolderRemoved string
  | QrTerminal string
  | NewQRGenerated
  | QRGenerationFailed exn
  | Connected
  | JidNotFoundDelaying
  | ConnectionClosed "int option"
  | LoggedOutDeleting
  | NoUserJidFound
  | SessionFileSent string
  | AllWelcomeSent
  | FailedToSendWelcome exn
  | UnhandledRejectionLine rejection

datatype timer_callback = CleanupTimeout | Reconnect | DelayedWelcome | FinalCleanup

type_synonym timer = "nat \<times> timer_callback"

text \<open>
  What the session does and observes, in the order it happens. \<open>ResJson\<close> records
  every call of \<^verbatim>\<open>res.json\<close>, also one that throws; \<open>Uncaught\<close> is an exception that
  leaves a timer callback, \<open>Unhandled\<close> one that rejects the promise of the handler.
  \<open>SendMessage\<close> is a call of \<^verbatim>\<open>sock.sendMessage\<close> and \<open>Sent\<close> the fulfilment of its
  promise; both carry the number of the invocation of \<^verbatim>\<open>sendWelcomeMessages\<close> that
  made the call, then the recipient and the payload.
\<close>

datatype effect =
    ConsoleLog log_line
  | ConsoleError log_line
  | ResJson nat body
  | SendMessage nat string payload
  | Sent nat string payload
  | RmSync string
  | SockEnd
  | WsConnect
  | Uncaught exn
  | Unhandled exn

subsection \<open>The state of one request\<close>

text \<open>
  The session directory is absent, or present with or without a \<^verbatim>\<open>creds.json\<close> of
  some content.
\<close>

datatype dir_state = Absent | Present "string option"

text \<open>
  An invocation of \<^verbatim>\<open>sendWelcomeMessages\<close> that has an identity is starting (before
  its first \<^verbatim>\<open>await\<close>), or suspended at one of the four sends (lines 164, 173, 187,
  195) with the identity it resolved, or it has returned. The document it sends is read
  before the call, at line 165.
\<close>

datatype stage = AwaitCreds string | AwaitImage | AwaitAudio | AwaitFinal

datatype invocation = Starting | Suspended string stage | Returned

text \<open>
  \<open>awaiting\<close> holds the update of a handler invocation that is suspended at
  \<^verbatim>\<open>await QRCode.toDataURL\<close>, the only \<^verbatim>\<open>await\<close> of the handler. The handler sets
  \<open>qrSent\<close> before it suspends and nothing unsets the flag, so one slot is enough.
  \<open>user_id\<close> is \<^verbatim>\<open>sock.user?.id\<close>. \<open>timers\<close> are the timers set and not yet fired.
  \<open>runs\<close> are the invocations of \<^verbatim>\<open>sendWelcomeMessages\<close> that reached a send, in the
  order they were started; the position in the list is the number of the invocation.
\<close>

record session =
  sid :: string
  qrSent :: bool
  connectionSuccess :: bool
  res :: response
  awaiting :: "update option"
  timers :: "timer list"
  dir :: dir_state
  user_id :: "string option"
  runs :: "invocation list"
  trace :: "effect list"

text \<open>
  The parts of Baileys the source uses and that are not in the repository:
  \<^verbatim>\<open>jidNormalizedUser\<close>, the constant \<^verbatim>\<open>DisconnectReason.loggedOut\<close>, and whether a
  call of \<^verbatim>\<open>sock.sendMessage\<close> rejects.
\<close>

record env =
  jidNormalizedUser :: "string \<Rightarrow> string"
  loggedOut :: int
  sendMessage_throws :: "string \<Rightarrow> payload \<Rightarrow> bool"

definition emit :: "effect \<Rightarrow> session \<Rightarrow> session" where
  "emit e s = s\<lparr>trace := trace s @ [e]\<rparr>"

definition setTimeout :: "timer_callback \<Rightarrow> nat \<Rightarrow> session \<Rightarrow> session" where
  "setTimeout cb ms s = s\<lparr>timers := timers s @ [(ms, cb)]\<rparr>"

text \<open>\<^verbatim>\<open>res.status(c).json(b)\<close>: the session at the throw, or the session after the send.\<close>

definition res_status_json :: "nat \<Rightarrow> body \<Rightarrow> session \<Rightarrow> (exn \<times> session) + session" where
  "res_status_json c b s =
     (let r = status c (res s); s1 = emit (ResJson c b) (s\<lparr>res := r\<rparr>)
      in case json b r of
           Inl e \<Rightarrow> Inl (e, s1)
         | Inr r' \<Rightarrow> Inr (s1\<lparr>res := r'\<rparr>))"

text \<open>\<^verbatim>\<open>res.json(b)\<close> alone sends with the status code the response holds.\<close>

definition res_json :: "body \<Rightarrow> session \<Rightarrow> (exn \<times> session) + session" where
  "res_json b s = res_status_json (statusCode (res s)) b s"

subsection \<open>removeSession (lines 19 to 24)\<close>

text \<open>Every call in the source passes the session directory of the request.\<close>

definition removeSession :: "session \<Rightarrow> session" where
  "removeSession s =
     (if dir s \<noteq> Absent
      then emit (ConsoleLog (SessionFolderRemoved (sessionDir (sid s))))
             (emit (RmSync (sessionDir (sid s))) (s\<lparr>dir := Absent\<rparr>))
      else s)"

subsection \<open>sendWelcomeMessages (lines 156 to 215)\<close>

text \<open>
  The function is \<^verbatim>\<open>async\<close> and no caller awaits it (lines 106 and 108). A call runs
  it up to its first \<^verbatim>\<open>await\<close>; the rest runs, one piece at a time, when the promise
  of the awaited send settles, and anything else may run in between.
\<close>

text \<open>\<^verbatim>\<open>sock.user?.id ? jidNormalizedUser(sock.user.id) : null\<close>\<close>

definition resolveJid :: "env \<Rightarrow> session \<Rightarrow> string option" where
  "resolveJid ev s =
     (case user_id s of
        None \<Rightarrow> None
      | Some i \<Rightarrow> if i = [] then None else Some (jidNormalizedUser ev i))"

text \<open>The payload of the send a stage waits for.\<close>

fun awaited :: "stage \<Rightarrow> payload" where
  "awaited (AwaitCreds content) = credsDocument content"
| "awaited AwaitImage = welcomeImage"
| "awaited AwaitAudio = welcomeAudio"
| "awaited AwaitFinal = finalMessage"

text \<open>
  \<^verbatim>\<open>await sock.sendMessage(userJid, ...)\<close> in invocation \<open>i\<close>: the call is made and the
  invocation is suspended at it.
\<close>

definition await_sendMessage :: "nat \<Rightarrow> string \<Rightarrow> stage \<Rightarrow> session \<Rightarrow> session" where
  "await_sendMessage i userJid st s =
     emit (SendMessage i userJid (awaited st)) (s\<lparr>runs := (runs s)[i := Suspended userJid st]\<rparr>)"

text \<open>The first send the function reaches, by line 163.\<close>

definition first_stage :: "dir_state \<Rightarrow> stage" where
  "first_stage d = (case d of Present (Some content) \<Rightarrow> AwaitCreds content | _ \<Rightarrow> AwaitImage)"

text \<open>
  The call: lines 157 to 164, or to 173 when there is no \<^verbatim>\<open>creds.json\<close>. Without an
  identity the function logs and returns.
\<close>

definition sendWelcomeMessages :: "env \<Rightarrow> string option \<Rightarrow> session \<Rightarrow> session" where
  "sendWelcomeMessages ev fallbackJid s =
     (let userJid = (if truthy fallbackJid then fallbackJid else resolveJid ev s)
      in case userJid of
           None \<Rightarrow> emit (ConsoleLog NoUserJidFound) s
         | Some j \<Rightarrow>
             if j = [] then emit (ConsoleLog NoUserJidFound) s
             else await_sendMessage (length (runs s)) j (first_stage (dir s))
                    (s\<lparr>runs := runs s @ [Starting]\<rparr>))"

text \<open>
  What follows a fulfilled send: lines 169 to 173, 186 to 187, 194 to 195, and 204 to
  210, where the function returns.
\<close>

fun after_send :: "nat \<Rightarrow> string \<Rightarrow> stage \<Rightarrow> session \<Rightarrow> session" where
  "after_send i userJid (AwaitCreds content) s =
     await_sendMessage i userJid AwaitImage
       (emit (ConsoleLog (SessionFileSent (credsPath (sessionDir (sid s))))) s)"
| "after_send i userJid AwaitImage s = await_sendMessage i userJid AwaitAudio s"
| "after_send i userJid AwaitAudio s = await_sendMessage i userJid AwaitFinal s"
| "after_send i userJid AwaitFinal s =
     setTimeout FinalCleanup 15000
       (emit (ConsoleLog AllWelcomeSent) (s\<lparr>runs := (runs s)[i := Returned]\<rparr>))"

text \<open>
  The send that invocation \<open>i\<close> waits for settles. A rejection is thrown at the
  \<^verbatim>\<open>await\<close> and caught at line 212, where the function logs and returns.
\<close>

definition sendMessage_settled :: "env \<Rightarrow> nat \<Rightarrow> session \<Rightarrow> session" where
  "sendMessage_settled ev i s =
     (if i < length (runs s)
      then (case runs s ! i of
              Starting \<Rightarrow> s
            | Returned \<Rightarrow> s
            | Suspended userJid st \<Rightarrow>
                if sendMessage_throws ev userJid (awaited st)
                then emit (ConsoleError (FailedToSendWelcome SendRejected))
                       (s\<lparr>runs := (runs s)[i := Returned]\<rparr>)
                else after_send i userJid st (emit (Sent i userJid (awaited st)) s))
      else s)"

text \<open>
  A call followed at once by the settling of each of its sends, with nothing in
  between: the invocation from its call to its return.
\<close>

definition sendWelcomeMessages_uninterrupted :: "env \<Rightarrow> string option \<Rightarrow> session \<Rightarrow> session" where
  "sendWelcomeMessages_uninterrupted ev fallbackJid s =
     (let i = length (runs s)
      in sendMessage_settled ev i (sendMessage_settled ev i (sendMessage_settled ev i
           (sendMessage_settled ev i (sendWelcomeMessages ev fallbackJid s)))))"

subsection \<open>The connection.update handler (lines 65 to 131)\<close>

text \<open>The branch for \<^verbatim>\<open>connection === 'open'\<close>, lines 99 to 110.\<close>

definition open_branch :: "env \<Rightarrow> update \<Rightarrow> session \<Rightarrow> session" where
  "open_branch ev u s =
     (if connection u = Some Open
      then (let s1 = emit (ConsoleLog Connected) (s\<lparr>connectionSuccess := True\<rparr>);
                userJid = resolveJid ev s1
            in if \<not> truthy userJid
               then setTimeout DelayedWelcome 5000 (emit (ConsoleLog JidNotFoundDelaying) s1)
               else sendWelcomeMessages ev userJid s1)
      else s)"

text \<open>The operand of the log line, \<^verbatim>\<open>reason || 'Unknown'\<close>.\<close>

definition reason_or_unknown :: "int option \<Rightarrow> int option" where
  "reason_or_unknown reason = (if reason = Some 0 then None else reason)"

text \<open>
  The branch for \<^verbatim>\<open>connection === 'close'\<close>, lines 112 to 130. An exception at the
  response would reject the handler's promise and skip the rest of the branch.
\<close>

definition close_branch :: "env \<Rightarrow> update \<Rightarrow> session \<Rightarrow> session" where
  "close_branch ev u s =
     (if connection u = Some Close
      then (let reason = lastDisconnect u;
                shouldReconnect = (reason \<noteq> Some (loggedOut ev));
                s1 = emit (ConsoleLog (ConnectionClosed (reason_or_unknown reason))) s;
                s2 = (if reason = Some (loggedOut ev)
                      then removeSession (emit (ConsoleLog LoggedOutDeleting) s1)
                      else s1);
                r3 = (if \<not> connectionSuccess s2 \<and> \<not> headersSent (res s2)
                      then res_status_json 500 (ErrorBody ''Connection failed or closed unexpectedly'') s2
                      else Inr s2)
            in case r3 of
                 Inl (err, s3) \<Rightarrow> emit (Unhandled err) s3
               | Inr s3 \<Rightarrow> if shouldReconnect then setTimeout Reconnect 3000 s3 else s3)
      else s)"

definition after_qr :: "env \<Rightarrow> update \<Rightarrow> session \<Rightarrow> session" where
  "after_qr ev u s = close_branch ev u (open_branch ev u s)"

text \<open>
  The handler up to its first suspension. When the update carries a code and \<open>qrSent\<close>
  is unset, the flag is set and the invocation waits for the image; otherwise the
  invocation runs to its end.
\<close>

definition on_connection_update :: "env \<Rightarrow> update \<Rightarrow> session \<Rightarrow> session" where
  "on_connection_update ev u s =
     (if truthy (qr u) \<and> \<not> qrSent s
      then s\<lparr>qrSent := True, awaiting := Some u\<rparr>
      else after_qr ev u s)"

text \<open>
  The body of the \<^verbatim>\<open>try\<close> of lines 70 to 92, given the image or the rejection of
  \<^verbatim>\<open>QRCode.toDataURL\<close>.
\<close>

definition qr_try :: "update \<Rightarrow> string option \<Rightarrow> session \<Rightarrow> (exn \<times> session) + session" where
  "qr_try u img s =
     (case img of
        None \<Rightarrow> Inl (RenderRejected, s)
      | Some qrImage \<Rightarrow>
          res_json (QrBody True qrImage (sid s) qr_message qr_instructions)
            (emit (ConsoleLog NewQRGenerated)
               (emit (ConsoleLog (QrTerminal (case qr u of None \<Rightarrow> [] | Some c \<Rightarrow> c))) s)))"

text \<open>The suspended invocation resumes: the \<^verbatim>\<open>try\<close>, its \<^verbatim>\<open>catch\<close> (lines 93 to 96), then
  lines 99 to 130. An exception that leaves the \<^verbatim>\<open>catch\<close> rejects the handler's promise.\<close>

definition qr_catch :: "exn \<Rightarrow> session \<Rightarrow> (exn \<times> session) + session" where
  "qr_catch err s =
     (let s1 = emit (ConsoleError (QRGenerationFailed err)) s
      in if \<not> headersSent (res s1)
         then res_status_json 500 (ErrorBody ''Failed to generate QR'') s1
         else Inr s1)"

definition toDataURL_settled :: "env \<Rightarrow> string option \<Rightarrow> session \<Rightarrow> session" where
  "toDataURL_settled ev img s =
     (case awaiting s of
        None \<Rightarrow> s
      | Some u \<Rightarrow>
          (let r1 = (case qr_try u img (s\<lparr>awaiting := None\<rparr>) of
                       Inr s1 \<Rightarrow> Inr s1
                     | Inl (err, s1) \<Rightarrow> qr_catch err s1)
           in case r1 of
                Inl (err, s2) \<Rightarrow> emit (Unhandled err) s2
              | Inr s2 \<Rightarrow> after_qr ev u s2))"

subsection \<open>Timer callbacks\<close>

text \<open>
  The callback of lines 136 to 144. An exception at the response leaves the callback:
  the statements after it do not run.
\<close>

definition cleanup_timeout :: "session \<Rightarrow> session" where
  "cleanup_timeout s =
     (let r1 = (if \<not> connectionSuccess s \<and> \<not> qrSent s
                then res_status_json 408 (ErrorBody (''QR timeout '' @ endash @ '' no scan detected'')) s
                else Inr s)
      in case r1 of
           Inl (err, s1) \<Rightarrow> emit (Uncaught err) s1
         | Inr s1 \<Rightarrow>
             if \<not> connectionSuccess s1 then removeSession (emit SockEnd s1) else s1)"

text \<open>The callback of lines 207 to 210.\<close>

definition final_cleanup :: "session \<Rightarrow> session" where
  "final_cleanup s = emit SockEnd (removeSession s)"

fun run_callback :: "env \<Rightarrow> timer_callback \<Rightarrow> session \<Rightarrow> session" where
  "run_callback ev CleanupTimeout s = cleanup_timeout s"
| "run_callback ev Reconnect s = emit WsConnect s"
| "run_callback ev DelayedWelcome s = sendWelcomeMessages ev None s"
| "run_callback ev FinalCleanup s = final_cleanup s"

text \<open>A timer fires once, and only when it has been set.\<close>

definition timer_fired :: "env \<Rightarrow> timer \<Rightarrow> session \<Rightarrow> session" where
  "timer_fired ev t s =
     (if t \<in> set (timers s)
      then run_callback ev (snd t) (s\<lparr>timers := remove1 t (timers s)\<rparr>)
      else s)"

subsection \<open>The route and the event loop\<close>

text \<open>
  Lines 28 to 62 and 136 when nothing throws: the directory is made (an existing one is
  kept as it is), the flags are unset, the 60 second timer is set. The argument \<open>d\<close>
  is the directory as the request finds it.
\<close>

definition mkdirSync :: "dir_state \<Rightarrow> dir_state" where
  "mkdirSync d = (case d of Absent \<Rightarrow> Present None | Present c \<Rightarrow> Present c)"

definition route :: "int \<Rightarrow> string \<Rightarrow> dir_state \<Rightarrow> session" where
  "route now suffix d =
     \<lparr>sid = sessionId now suffix, qrSent = False, connectionSuccess = False,
      res = \<lparr>statusCode = 200, sent = None\<rparr>, awaiting = None,
      timers = [(60000, CleanupTimeout)], dir = mkdirSync d, user_id = None, runs = [],
      trace = []\<rparr>"

text \<open>
  Besides updates, the image, timers and settled sends, the socket learns its user and
  the \<^verbatim>\<open>creds.update\<close> listener writes \<^verbatim>\<open>creds.json\<close> into the directory if it is
  there.
\<close>

datatype event =
    ConnectionUpdate update
  | ToDataURLSettled "string option"
  | TimerFired timer
  | SendSettled nat
  | UserKnown string
  | CredsUpdate string

fun step :: "env \<Rightarrow> event \<Rightarrow> session \<Rightarrow> session" where
  "step ev (ConnectionUpdate u) s = on_connection_update ev u s"
| "step ev (ToDataURLSettled img) s = toDataURL_settled ev img s"
| "step ev (TimerFired t) s = timer_fired ev t s"
| "step ev (SendSettled i) s = sendMessage_settled ev i s"
| "step ev (UserKnown i) s = s\<lparr>user_id := Some i\<rparr>"
| "step ev (CredsUpdate c) s = (if dir s = Absent then s else s\<lparr>dir := Present (Some c)\<rparr>)"

fun run :: "env \<Rightarrow> event list \<Rightarrow> session \<Rightarrow> session" where
  "run ev [] s = s"
| "run ev (e # es) s = run ev es (step ev e s)"

subsection \<open>The unhandledRejection handler (lines 218 to 223)\<close>

text \<open>
  \<^verbatim>\<open>err?.message?.includes?.(x)\<close> is \<^verbatim>\<open>undefined\<close> when the error or its message is
  missing. The result is the lines written to the console.
\<close>

definition message_includes :: "rejection \<Rightarrow> string \<Rightarrow> bool" where
  "message_includes err x =
     (case err of Nullish \<Rightarrow> False | Err None \<Rightarrow> False | Err (Some m) \<Rightarrow> includes_str m x)"

definition unhandledRejection :: "rejection \<Rightarrow> effect list" where
  "unhandledRejection err =
     (if message_includes err ''rate-overlimit'' \<or>
         message_includes err ''conflict'' \<or>
         message_includes err ''timed out''
      then []
      else [ConsoleError (UnhandledRejectionLine err)])"

subsection \<open>Observations on a session\<close>

text \<open>The calls of \<^verbatim>\<open>res.json\<close> that carry a pairing code, and their number so far.\<close>

fun is_qr_json :: "effect \<Rightarrow> bool" where
  "is_qr_json (ResJson c (QrBody ok img i m ins)) = True"
| "is_qr_json e = False"

definition qr_calls :: "session \<Rightarrow> nat" where
  "qr_calls s = length (filter is_qr_json (trace s))"

text \<open>The messages whose send was fulfilled so far, with their recipients, in order.\<close>

fun msg_of :: "effect \<Rightarrow> (string \<times> payload) list" where
  "msg_of (Sent i j p) = [(j, p)]"
| "msg_of e = []"

definition sent_messages :: "session \<Rightarrow> (string \<times> payload) list" where
  "sent_messages s = concat (map msg_of (trace s))"

text \<open>The payloads of one onboarding run, in the order of the source text.\<close>

definition planned :: "session \<Rightarrow> payload list" where
  "planned s =
     (case dir s of Present (Some content) \<Rightarrow> [credsDocument content] | _ \<Rightarrow> []) @
     [welcomeImage, welcomeAudio, finalMessage]"

text \<open>
  The calls and fulfilments of invocation \<open>i\<close> so far, and those of all invocations.
\<close>

fun invocation_of :: "effect \<Rightarrow> nat option" where
  "invocation_of (SendMessage i j p) = Some i"
| "invocation_of (Sent i j p) = Some i"
| "invocation_of e = None"

definition sends_of :: "nat \<Rightarrow> session \<Rightarrow> effect list" where
  "sends_of i s = filter (\<lambda>e. invocation_of e = Some i) (trace s)"

definition all_sends :: "session \<Rightarrow> effect list" where
  "all_sends s = filter (\<lambda>e. invocation_of e \<noteq> None) (trace s)"

text \<open>
  Sending a list of payloads one after the other, each call followed by its fulfilment
  before the next call.
\<close>

definition script :: "nat \<Rightarrow> string \<Rightarrow> payload list \<Rightarrow> effect list" where
  "script i j ps = concat (map (\<lambda>p. [SendMessage i j p, Sent i j p]) ps)"

text \<open>The document, if there is one to send, and the full list of payloads with it.\<close>

definition doc_of :: "string option \<Rightarrow> payload list" where
  "doc_of co = (case co of None \<Rightarrow> [] | Some content \<Rightarrow> [credsDocument content])"

definition plan_of :: "string option \<Rightarrow> payload list" where
  "plan_of co = doc_of co @ [welcomeImage, welcomeAudio, finalMessage]"

text \<open>
  What an invocation has called and seen fulfilled, by where it stands: everything
  before the send it waits for, in order, and the call of that send.
\<close>

fun follows :: "nat \<Rightarrow> invocation \<Rightarrow> effect list \<Rightarrow> bool" where
  "follows i (Suspended j (AwaitCreds content)) es =
     (es = [SendMessage i j (credsDocument content)])"
| "follows i (Suspended j AwaitImage) es =
     (\<exists>co. es = script i j (doc_of co) @ [SendMessage i j welcomeImage])"
| "follows i (Suspended j AwaitAudio) es =
     (\<exists>co. es = script i j (doc_of co @ [welcomeImage]) @ [SendMessage i j welcomeAudio])"
| "follows i (Suspended j AwaitFinal) es =
     (\<exists>co. es = script i j (doc_of co @ [welcomeImage, welcomeAudio]) @
                 [SendMessage i j finalMessage])"
| "follows i Returned es = (\<exists>j co n. es = take n (script i j (plan_of co)))"
| "follows i Starting es = (es = [])"

definition in_order :: "session \<Rightarrow> bool" where
  "in_order s =
     (\<forall>i. if i < length (runs s) then follows i (runs s ! i) (sends_of i s)
          else sends_of i s = [])"

text \<open>
  The sends from a stage on, and what an invocation suspended at the first of them
  does until it returns when nothing else runs in between: \<open>d\<close> is the path of the
  credentials file.
\<close>

fun stages_from :: "stage \<Rightarrow> stage list" where
  "stages_from (AwaitCreds content) = [AwaitCreds content, AwaitImage, AwaitAudio, AwaitFinal]"
| "stages_from AwaitImage = [AwaitImage, AwaitAudio, AwaitFinal]"
| "stages_from AwaitAudio = [AwaitAudio, AwaitFinal]"
| "stages_from AwaitFinal = [AwaitFinal]"

fun expected :: "env \<Rightarrow> nat \<Rightarrow> string \<Rightarrow> string \<Rightarrow> stage list \<Rightarrow> effect list" where
  "expected ev i j d [] = [ConsoleLog AllWelcomeSent]"
| "expected ev i j d (st # sts) =
     (if sendMessage_throws ev j (awaited st)
      then [ConsoleError (FailedToSendWelcome SendRejected)]
      else Sent i j (awaited st) #
           (case st of AwaitCreds content \<Rightarrow> [ConsoleLog (SessionFileSent d)] | _ \<Rightarrow> []) @
           (case sts of [] \<Rightarrow> [] | st' # r \<Rightarrow> [SendMessage i j (awaited st')]) @
           expected ev i j d sts)"

text \<open>An update that only carries a pairing code.\<close>

definition pairing_code :: "string \<Rightarrow> update" where
  "pairing_code c = \<lparr>qr = Some c, connection = None, lastDisconnect = None\<rparr>"

definition closed_with :: "int option \<Rightarrow> update" where
  "closed_with reason = \<lparr>qr = None, connection = Some Close, lastDisconnect = reason\<rparr>"

definition opened :: update where
  "opened = \<lparr>qr = None, connection = Some Open, lastDisconnect = None\<rparr>"

text \<open>
  What \<^verbatim>\<open>sendWelcomeMessages\<close> leaves as it is: the flags, the response, the suspended
  handler, the directory, the user and the number of pairing codes answered.
\<close>

definition untouched :: "session \<Rightarrow> session \<Rightarrow> bool" where
  "untouched s s' =
     (sid s' = sid s \<and> qrSent s' = qrSent s \<and> connectionSuccess s' = connectionSuccess s \<and>
      res s' = res s \<and> awaiting s' = awaiting s \<and> dir s' = dir s \<and> user_id s' = user_id s \<and>
      qr_calls s' = qr_calls s)"

text \<open>The part of the state the pairing-code branch reads and writes.\<close>

definition qr_frame :: "session \<Rightarrow> session \<Rightarrow> bool" where
  "qr_frame s s' = (qrSent s' = qrSent s \<and> awaiting s' = awaiting s \<and> qr_calls s' = qr_calls s)"

fun is_settle :: "event \<Rightarrow> bool" where
  "is_settle (ToDataURLSettled img) = True"
| "is_settle e = False"

text \<open>
  A code is answered at most once: before the flag is set nothing is suspended and no
  code has been answered; after it, a suspended handler and an answered code exclude
  each other.
\<close>

definition one_code :: "session \<Rightarrow> bool" where
  "one_code s =
     (if qrSent s then qr_calls s + (if awaiting s = None then 0 else 1) \<le> 1
      else awaiting s = None \<and> qr_calls s = 0)"

text \<open>
  Until the connection has opened, no send has been called, no invocation is running
  and no deferred onboarding is pending.
\<close>

definition paired_only :: "session \<Rightarrow> bool" where
  "paired_only s =
     (connectionSuccess s \<or>
      (all_sends s = [] \<and> runs s = [] \<and>
       filter (\<lambda>t. snd t = DelayedWelcome) (timers s) = []))"

subsection \<open>Sample inputs\<close>

text \<open>
  A socket whose sends all succeed, with 401 for \<^verbatim>\<open>DisconnectReason.loggedOut\<close>, and
  one whose send of the welcome image rejects.
\<close>

definition sample_env :: env where
  "sample_env = \<lparr>jidNormalizedUser = (\<lambda>i. i), loggedOut = 401, sendMessage_throws = (\<lambda>j p. False)\<rparr>"

definition image_rejecting_env :: env where
  "image_rejecting_env =
     \<lparr>jidNormalizedUser = (\<lambda>i. i), loggedOut = 401,
      sendMessage_throws = (\<lambda>j p. p = welcomeImage)\<rparr>"

definition fresh_session :: session where
  "fresh_session = route 1700000000000 ''k3j9x2m1q'' Absent"

definition jid0 :: string where "jid0 = ''255700000000@s.whatsapp.net''"

text \<open>
  The connection closes with reason 428 before any pairing code, the reconnect timer
  fires, no pairing code follows, and the 60 second timer fires.
\<close>

definition early_close_then_timeout :: session where
  "early_close_then_timeout =
     run sample_env
       [ConnectionUpdate (closed_with (Some 428)), TimerFired (3000, Reconnect),
        TimerFired (60000, CleanupTimeout)]
       fresh_session"

text \<open>
  A session whose \<^verbatim>\<open>creds.json\<close> has been written. One that then pairs with a known
  user and whose four sends are fulfilled. One whose directory is removed by a
  logged-out close while the first send is in flight.
\<close>

definition with_creds :: session where
  "with_creds = step sample_env (CredsUpdate ''{}'') fresh_session"

definition paired_sample :: session where
  "paired_sample =
     run sample_env
       [CredsUpdate ''{}'', UserKnown jid0, ConnectionUpdate opened,
        SendSettled 0, SendSettled 0, SendSettled 0, SendSettled 0]
       fresh_session"

definition closed_while_sending :: session where
  "closed_while_sending =
     run sample_env
       [CredsUpdate ''{}'', UserKnown jid0, ConnectionUpdate opened,
        ConnectionUpdate (closed_with (Some 401)),
        SendSettled 0, SendSettled 0, SendSettled 0, SendSettled 0]
       fresh_session"

text \<open>
  The connection opens while the socket does not know its user yet; then the user
  becomes known before the deferred run.
\<close>

definition unresolved_open :: session where
  "unresolved_open = step sample_env (ConnectionUpdate opened) fresh_session"

definition learned_later :: session where
  "learned_later = step sample_env (UserKnown jid0) unresolved_open"

text \<open>The user is known before the connection opens.\<close>

definition known_user :: session where
  "known_user = step sample_env (UserKnown jid0) fresh_session"

section \<open>Session identifiers\<close>

text \<open>
  C2. The claim is that each request gets an id built from the time and a random
  suffix, so that no two sessions share a directory. The id of line 28 depends on
  neither: any two requests, whatever the clock and the random suffix, get the same id
  and so the same session directory.
\<close>

theorem sessionId_ignores_time_and_random:
  "sessionId now1 suffix1 = sessionId now2 suffix2 \<and>
   sessionDir (sessionId now1 suffix1) = sessionDir (sessionId now2 suffix2)"
  by (simp add: sessionId_def)

section \<open>The unhandledRejection filter\<close>

lemma includes_str_iff: "includes_str s t \<longleftrightarrow> (\<exists>pre suf. s = pre @ t @ suf)"
proof (induction s)
  case Nil
  then show ?case by auto
next
  case (Cons c cs)
  have a: "take (length t) (c # cs) = t \<longleftrightarrow> (\<exists>suf. c # cs = t @ suf)"
    by (metis append_eq_conv_conj)
  have b: "(\<exists>pre suf. c # cs = pre @ t @ suf) \<longleftrightarrow>
           (\<exists>suf. c # cs = t @ suf) \<or> (\<exists>pre suf. cs = pre @ t @ suf)"
  proof
    assume "\<exists>pre suf. c # cs = pre @ t @ suf"
    then obtain pre suf where h: "c # cs = pre @ t @ suf" by blast
    show "(\<exists>suf. c # cs = t @ suf) \<or> (\<exists>pre suf. cs = pre @ t @ suf)"
    proof (cases pre)
      case Nil
      with h show ?thesis by auto
    next
      case (Cons p ps)
      with h have "cs = ps @ t @ suf" by simp
      then show ?thesis by blast
    qed
  next
    assume "(\<exists>suf. c # cs = t @ suf) \<or> (\<exists>pre suf. cs = pre @ t @ suf)"
    then show "\<exists>pre suf. c # cs = pre @ t @ suf"
    proof
      assume "\<exists>suf. c # cs = t @ suf"
      then obtain suf where "c # cs = [] @ t @ suf" by auto
      then show ?thesis by blast
    next
      assume "\<exists>pre suf. cs = pre @ t @ suf"
      then obtain pre suf where "cs = pre @ t @ suf" by blast
      then have "c # cs = (c # pre) @ t @ suf" by simp
      then show ?thesis by blast
    qed
  qed
  show ?case using Cons.IH a b by simp
qed

text \<open>
  C9. The handler writes nothing when the rejection has a message in which
  \<^verbatim>\<open>rate-overlimit\<close>, \<^verbatim>\<open>conflict\<close> or \<^verbatim>\<open>timed out\<close> occurs, and writes one error line
  with the rejection in every other case (also when the rejection or its message is
  missing): it is discarded if and only if its message contains one of the three.
\<close>

theorem unhandledRejection_discards_iff_benign:
  "unhandledRejection err =
     (if \<exists>m pre suf. err = Err (Some m) \<and>
            (m = pre @ ''rate-overlimit'' @ suf \<or> m = pre @ ''conflict'' @ suf \<or>
             m = pre @ ''timed out'' @ suf)
      then [] else [ConsoleError (UnhandledRejectionLine err)])"
proof (cases err)
  case Nullish
  then show ?thesis by (simp add: unhandledRejection_def message_includes_def)
next
  case (Err mo)
  show ?thesis
  proof (cases mo)
    case None
    with Err show ?thesis by (simp add: unhandledRejection_def message_includes_def)
  next
    case (Some m)
    have "(includes_str m ''rate-overlimit'' \<or> includes_str m ''conflict'' \<or>
           includes_str m ''timed out'')
          \<longleftrightarrow> (\<exists>pre suf. m = pre @ ''rate-overlimit'' @ suf \<or> m = pre @ ''conflict'' @ suf \<or>
             m = pre @ ''timed out'' @ suf)"
      unfolding includes_str_iff by blast
    with Err Some show ?thesis by (simp add: unhandledRejection_def message_includes_def)
  qed
qed

section \<open>Basic facts about the state operations\<close>

lemma emit_fields [simp]:
  "sid (emit e s) = sid s" "qrSent (emit e s) = qrSent s"
  "connectionSuccess (emit e s) = connectionSuccess s" "res (emit e s) = res s"
  "awaiting (emit e s) = awaiting s" "timers (emit e s) = timers s"
  "dir (emit e s) = dir s" "user_id (emit e s) = user_id s" "runs (emit e s) = runs s"
  "trace (emit e s) = trace s @ [e]"
  by (simp_all add: emit_def)

lemma setTimeout_fields [simp]:
  "sid (setTimeout cb ms s) = sid s" "qrSent (setTimeout cb ms s) = qrSent s"
  "connectionSuccess (setTimeout cb ms s) = connectionSuccess s" "res (setTimeout cb ms s) = res s"
  "awaiting (setTimeout cb ms s) = awaiting s" "timers (setTimeout cb ms s) = timers s @ [(ms, cb)]"
  "dir (setTimeout cb ms s) = dir s" "user_id (setTimeout cb ms s) = user_id s"
  "runs (setTimeout cb ms s) = runs s"
  "trace (setTimeout cb ms s) = trace s"
  by (simp_all add: setTimeout_def)

lemma removeSession_fields [simp]:
  "sid (removeSession s) = sid s" "qrSent (removeSession s) = qrSent s"
  "connectionSuccess (removeSession s) = connectionSuccess s" "res (removeSession s) = res s"
  "awaiting (removeSession s) = awaiting s" "timers (removeSession s) = timers s"
  "dir (removeSession s) = Absent" "user_id (removeSession s) = user_id s"
  "runs (removeSession s) = runs s"
  "trace (removeSession s) =
     trace s @ (if dir s \<noteq> Absent
                then [RmSync (sessionDir (sid s)), ConsoleLog (SessionFolderRemoved (sessionDir (sid s)))]
                else [])"
  by (simp_all add: removeSession_def)

lemma res_status_json_open:
  "\<not> headersSent (res s) \<Longrightarrow>
   res_status_json c b s =
     Inr (s\<lparr>res := \<lparr>statusCode = c, sent = Some (c, b)\<rparr>, trace := trace s @ [ResJson c b]\<rparr>)"
  by (simp add: res_status_json_def json_def status_def headersSent_def emit_def Let_def)

lemma res_status_json_sent:
  "headersSent (res s) \<Longrightarrow>
   res_status_json c b s =
     Inl (ERR_HTTP_HEADERS_SENT,
          s\<lparr>res := (res s)\<lparr>statusCode := c\<rparr>, trace := trace s @ [ResJson c b]\<rparr>)"
  by (simp add: res_status_json_def json_def status_def headersSent_def emit_def Let_def)

lemma close_branch_logged_out:
  assumes "connection u = Some Close" "lastDisconnect u = Some (loggedOut ev)"
  shows "dir (close_branch ev u s) = Absent"
    and "timers (close_branch ev u s) = timers s"
    and "filter (\<lambda>e. e = WsConnect) (trace (close_branch ev u s)) = filter (\<lambda>e. e = WsConnect) (trace s)"
  using assms
  by (simp_all add: close_branch_def Let_def res_status_json_open)

lemma close_branch_other:
  assumes "connection u = Some Close" "lastDisconnect u \<noteq> Some (loggedOut ev)"
  shows "timers (close_branch ev u s) = timers s @ [(3000, Reconnect)]"
    and "dir (close_branch ev u s) = dir s"
  using assms
  by (simp_all add: close_branch_def Let_def res_status_json_open)

lemma open_branch_not_open: "connection u \<noteq> Some Open \<Longrightarrow> open_branch ev u s = s"
  by (simp add: open_branch_def)

lemma close_branch_not_close: "connection u \<noteq> Some Close \<Longrightarrow> close_branch ev u s = s"
  by (simp add: close_branch_def)

text \<open>
  C5. A close event (an update without a pairing code, or one that arrives after the
  flag is set, so that the handler runs through). With the logged-out reason the session
  directory is gone after the handler, no timer is added and \<^verbatim>\<open>sock.ws.connect\<close> is not
  called. With any other reason, also a missing one, one timer of 3000 ms is added, and
  when it fires it calls \<^verbatim>\<open>connect\<close> on the socket of the session and does nothing
  else.
\<close>

theorem close_event_logout_or_reconnect:
  assumes "connection u = Some Close" and "\<not> truthy (qr u) \<or> qrSent s"
  shows "(lastDisconnect u = Some (loggedOut ev) \<longrightarrow>
            dir (step ev (ConnectionUpdate u) s) = Absent \<and>
            timers (step ev (ConnectionUpdate u) s) = timers s \<and>
            filter (\<lambda>e. e = WsConnect) (trace (step ev (ConnectionUpdate u) s)) =
              filter (\<lambda>e. e = WsConnect) (trace s)) \<and>
         (lastDisconnect u \<noteq> Some (loggedOut ev) \<longrightarrow>
            timers (step ev (ConnectionUpdate u) s) = timers s @ [(3000, Reconnect)] \<and>
            dir (step ev (ConnectionUpdate u) s) = dir s \<and>
            timer_fired ev (3000, Reconnect) (step ev (ConnectionUpdate u) s) =
              emit WsConnect
                ((step ev (ConnectionUpdate u) s)
                   \<lparr>timers := remove1 (3000, Reconnect) (timers (step ev (ConnectionUpdate u) s))\<rparr>))"
proof -
  have st: "step ev (ConnectionUpdate u) s = close_branch ev u s"
    using assms by (auto simp: on_connection_update_def after_qr_def open_branch_not_open)
  show ?thesis
    unfolding st using assms(1)
    by (simp add: close_branch_logged_out close_branch_other timer_fired_def)
qed

section \<open>The onboarding run\<close>

lemma sample_route:
  "fresh_session =
     \<lparr>sid = sessionId 1700000000000 ''k3j9x2m1q'', qrSent = False, connectionSuccess = False,
      res = \<lparr>statusCode = 200, sent = None\<rparr>, awaiting = None,
      timers = [(60000, CleanupTimeout)], dir = Present None, user_id = None, runs = [],
      trace = []\<rparr>"
  by (simp add: fresh_session_def route_def mkdirSync_def)

lemma await_sendMessage_fields [simp]:
  "sid (await_sendMessage i j st s) = sid s" "qrSent (await_sendMessage i j st s) = qrSent s"
  "connectionSuccess (await_sendMessage i j st s) = connectionSuccess s"
  "res (await_sendMessage i j st s) = res s" "awaiting (await_sendMessage i j st s) = awaiting s"
  "timers (await_sendMessage i j st s) = timers s" "dir (await_sendMessage i j st s) = dir s"
  "user_id (await_sendMessage i j st s) = user_id s"
  "runs (await_sendMessage i j st s) = (runs s)[i := Suspended j st]"
  "trace (await_sendMessage i j st s) = trace s @ [SendMessage i j (awaited st)]"
  by (simp_all add: await_sendMessage_def)

lemma sent_messages_emit [simp]: "sent_messages (emit e s) = sent_messages s @ msg_of e"
  by (simp add: sent_messages_def)

lemma sent_messages_trace: "trace s' = trace s @ es \<Longrightarrow>
    sent_messages s' = sent_messages s @ concat (map msg_of es)"
  by (simp add: sent_messages_def)

lemma sendWelcomeMessages_known:
  "j \<noteq> [] \<Longrightarrow>
   sendWelcomeMessages ev (Some j) s =
     s\<lparr>runs := runs s @ [Suspended j (first_stage (dir s))],
       trace := trace s @ [SendMessage (length (runs s)) j (awaited (first_stage (dir s)))]\<rparr>"
  by (simp add: sendWelcomeMessages_def truthy_def await_sendMessage_def emit_def)

lemma sendWelcomeMessages_None:
  "sendWelcomeMessages ev None s = sendWelcomeMessages ev (resolveJid ev s) s"
  by (simp add: sendWelcomeMessages_def truthy_def)

lemma sendWelcomeMessages_unknown:
  "\<not> truthy fb \<Longrightarrow> \<not> truthy (resolveJid ev s) \<Longrightarrow>
   sendWelcomeMessages ev fb s = emit (ConsoleLog NoUserJidFound) s"
  by (auto simp: sendWelcomeMessages_def truthy_def split: option.splits)

text \<open>One settled send, in any state.\<close>

lemma settled_rejected:
  assumes "i < length (runs s)" and "runs s ! i = Suspended j st"
    and "sendMessage_throws ev j (awaited st)"
  shows "sendMessage_settled ev i s =
           emit (ConsoleError (FailedToSendWelcome SendRejected)) (s\<lparr>runs := (runs s)[i := Returned]\<rparr>)"
  using assms by (simp add: sendMessage_settled_def)

lemma settled_fulfilled:
  assumes "i < length (runs s)" and "runs s ! i = Suspended j st"
    and "\<not> sendMessage_throws ev j (awaited st)"
  shows "sendMessage_settled ev i s = after_send i j st (emit (Sent i j (awaited st)) s)"
  using assms by (simp add: sendMessage_settled_def)

lemma settled_idle:
  "\<not> i < length (runs s) \<or> runs s ! i = Returned \<or> runs s ! i = Starting \<Longrightarrow>
   sendMessage_settled ev i s = s"
  by (auto simp: sendMessage_settled_def)

lemma planned_stages: "planned s = map awaited (stages_from (first_stage (dir s)))"
  by (simp add: planned_def first_stage_def split: dir_state.splits option.splits)

lemma stages_from_Cons: "\<exists>sts. stages_from st = st # sts"
  by (cases st) simp_all

lemma settled_returned_funpow:
  "i < length (runs s) \<Longrightarrow> runs s ! i = Returned \<Longrightarrow> (sendMessage_settled ev i ^^ n) s = s"
  by (induction n) (simp_all add: sendMessage_settled_def)

text \<open>
  An invocation suspended at a stage, left alone with its settled sends, does what
  \<open>expected\<close> says and returns.
\<close>

lemma drain:
  assumes "i < length (runs t)" and "runs t ! i = Suspended j st"
    and "length (stages_from st) \<le> n"
  shows "trace ((sendMessage_settled ev i ^^ n) t) =
           trace t @ expected ev i j (credsPath (sessionDir (sid t))) (stages_from st) \<and>
         timers ((sendMessage_settled ev i ^^ n) t) =
           timers t @ (if \<exists>st' \<in> set (stages_from st). sendMessage_throws ev j (awaited st')
                       then [] else [(15000, FinalCleanup)]) \<and>
         runs ((sendMessage_settled ev i ^^ n) t) = (runs t)[i := Returned] \<and>
         untouched t ((sendMessage_settled ev i ^^ n) t)"
  using assms
proof (induction n arbitrary: t st)
  case 0
  then show ?case by (cases st) simp_all
next
  case (Suc n)
  let ?f = "sendMessage_settled ev i"
  have sw: "(?f ^^ Suc n) t = (?f ^^ n) (?f t)" by (simp add: funpow_swap1)
  show ?case
  proof (cases "sendMessage_throws ev j (awaited st)")
    case True
    let ?t1 = "emit (ConsoleError (FailedToSendWelcome SendRejected)) (t\<lparr>runs := (runs t)[i := Returned]\<rparr>)"
    have f: "?f t = ?t1"
      using Suc.prems True by (simp add: settled_rejected)
    have r: "i < length (runs ?t1)" "runs ?t1 ! i = Returned"
      using Suc.prems by simp_all
    have d: "(?f ^^ n) ?t1 = ?t1" using r by (rule settled_returned_funpow)
    obtain sts where s: "stages_from st = st # sts" using stages_from_Cons by blast
    show ?thesis
      unfolding sw f d using True by (simp add: s untouched_def qr_calls_def)
  next
    case False
    have f: "?f t = after_send i j st (emit (Sent i j (awaited st)) t)"
      using Suc.prems False by (simp add: settled_fulfilled)
    show ?thesis
    proof (cases st)
      case AwaitFinal
      let ?t1 = "after_send i j AwaitFinal (emit (Sent i j finalMessage) t)"
      have r: "i < length (runs ?t1)" "runs ?t1 ! i = Returned"
        using Suc.prems by simp_all
      have d: "(?f ^^ n) ?t1 = ?t1" using r by (rule settled_returned_funpow)
      show ?thesis
        unfolding sw f using False AwaitFinal d by (simp add: untouched_def qr_calls_def)
    next
      case (AwaitCreds content)
      let ?t1 = "after_send i j (AwaitCreds content) (emit (Sent i j (credsDocument content)) t)"
      have r: "i < length (runs ?t1)" "runs ?t1 ! i = Suspended j AwaitImage"
        "length (stages_from AwaitImage) \<le> n"
        using Suc.prems AwaitCreds by simp_all
      from Suc.IH [OF r] show ?thesis
        unfolding sw f using False AwaitCreds by (simp add: untouched_def qr_calls_def)
    next
      case AwaitImage
      let ?t1 = "after_send i j AwaitImage (emit (Sent i j welcomeImage) t)"
      have r: "i < length (runs ?t1)" "runs ?t1 ! i = Suspended j AwaitAudio"
        "length (stages_from AwaitAudio) \<le> n"
        using Suc.prems AwaitImage by simp_all
      from Suc.IH [OF r] show ?thesis
        unfolding sw f using False AwaitImage by (simp add: untouched_def qr_calls_def)
    next
      case AwaitAudio
      let ?t1 = "after_send i j AwaitAudio (emit (Sent i j welcomeAudio) t)"
      have r: "i < length (runs ?t1)" "runs ?t1 ! i = Suspended j AwaitFinal"
        "length (stages_from AwaitFinal) \<le> n"
        using Suc.prems AwaitAudio by simp_all
      from Suc.IH [OF r] show ?thesis
        unfolding sw f using False AwaitAudio by (simp add: untouched_def qr_calls_def)
    qed
  qed
qed

lemma expected_sent:
  "concat (map msg_of (expected ev i j d sts)) =
     map (Pair j) (takeWhile (\<lambda>p. \<not> sendMessage_throws ev j p) (map awaited sts))"
  by (induction sts) (auto split: stage.splits list.splits)

lemma expected_last_rejected:
  "\<exists>st \<in> set sts. sendMessage_throws ev j (awaited st) \<Longrightarrow>
   last (expected ev i j d sts) = ConsoleError (FailedToSendWelcome SendRejected)"
proof (induction sts)
  case Nil
  then show ?case by simp
next
  case (Cons st sts)
  have ne: "expected ev i j d sts \<noteq> []" by (cases sts) simp_all
  show ?case
  proof (cases "sendMessage_throws ev j (awaited st)")
    case True
    then show ?thesis by simp
  next
    case False
    with Cons.prems have "\<exists>st \<in> set sts. sendMessage_throws ev j (awaited st)" by simp
    with Cons.IH have "last (expected ev i j d sts) = ConsoleError (FailedToSendWelcome SendRejected)"
      by simp
    with False ne show ?thesis by simp
  qed
qed

lemma uninterrupted_funpow:
  "sendWelcomeMessages_uninterrupted ev fb s =
     (sendMessage_settled ev (length (runs s)) ^^ 4) (sendWelcomeMessages ev fb s)"
  by (simp add: sendWelcomeMessages_uninterrupted_def Let_def eval_nat_numeral funpow_swap1)

lemma run_replicate: "run ev (replicate n e) s = (step ev e ^^ n) s"
  by (induction n arbitrary: s) (simp_all add: funpow_swap1)

lemma step_SendSettled: "step ev (SendSettled i) = sendMessage_settled ev i"
  by (rule ext) simp

lemma started_drain:
  assumes "j \<noteq> []" and "4 \<le> n"
  shows "trace ((sendMessage_settled ev (length (runs s)) ^^ n) (sendWelcomeMessages ev (Some j) s)) =
           trace s @ SendMessage (length (runs s)) j (awaited (first_stage (dir s))) #
             expected ev (length (runs s)) j (credsPath (sessionDir (sid s)))
               (stages_from (first_stage (dir s)))"
    and "timers ((sendMessage_settled ev (length (runs s)) ^^ n) (sendWelcomeMessages ev (Some j) s)) =
           timers s @ (if \<exists>p \<in> set (planned s). sendMessage_throws ev j p then []
                       else [(15000, FinalCleanup)])"
    and "runs ((sendMessage_settled ev (length (runs s)) ^^ n) (sendWelcomeMessages ev (Some j) s)) =
           runs s @ [Returned]"
    and "untouched s ((sendMessage_settled ev (length (runs s)) ^^ n) (sendWelcomeMessages ev (Some j) s))"
proof -
  let ?i = "length (runs s)"
  let ?st = "first_stage (dir s)"
  let ?t = "s\<lparr>runs := runs s @ [Suspended j ?st], trace := trace s @ [SendMessage ?i j (awaited ?st)]\<rparr>"
  have t: "sendWelcomeMessages ev (Some j) s = ?t"
    using assms(1) by (rule sendWelcomeMessages_known)
  have r: "?i < length (runs ?t)" "runs ?t ! ?i = Suspended j ?st" "length (stages_from ?st) \<le> n"
    using assms(2) by (cases ?st; simp)+
  note d = drain [OF r, of ev]
  show "trace ((sendMessage_settled ev ?i ^^ n) (sendWelcomeMessages ev (Some j) s)) =
           trace s @ SendMessage ?i j (awaited ?st) #
             expected ev ?i j (credsPath (sessionDir (sid s))) (stages_from ?st)"
    unfolding t using d by simp
  show "timers ((sendMessage_settled ev ?i ^^ n) (sendWelcomeMessages ev (Some j) s)) =
           timers s @ (if \<exists>p \<in> set (planned s). sendMessage_throws ev j p then []
                       else [(15000, FinalCleanup)])"
    unfolding t using d by (simp add: planned_stages)
  show "runs ((sendMessage_settled ev ?i ^^ n) (sendWelcomeMessages ev (Some j) s)) = runs s @ [Returned]"
    unfolding t using d by simp
  from d have "untouched ?t ((sendMessage_settled ev ?i ^^ n) ?t)" by blast
  then show "untouched s ((sendMessage_settled ev ?i ^^ n) (sendWelcomeMessages ev (Some j) s))"
    unfolding t by (simp add: untouched_def qr_calls_def)
qed

lemma started_drain_sent:
  assumes "j \<noteq> []" and "4 \<le> n"
  shows "sent_messages ((sendMessage_settled ev (length (runs s)) ^^ n) (sendWelcomeMessages ev (Some j) s)) =
           sent_messages s @
           map (Pair j) (takeWhile (\<lambda>p. \<not> sendMessage_throws ev j p) (planned s))"
  using started_drain(1) [OF assms, of ev s]
  by (simp add: sent_messages_def expected_sent planned_stages)

lemma settled_timers:
  assumes "i < length (runs t)" and "runs t ! i = Suspended j st"
  shows "timers (sendMessage_settled ev i t) =
           timers t @ (if st = AwaitFinal \<and> \<not> sendMessage_throws ev j (awaited st)
                       then [(15000, FinalCleanup)] else [])"
  using assms by (cases st) (simp_all add: sendMessage_settled_def)

text \<open>
  C3, as the code has it. The invocation is given an identity and runs from its call to
  its return. When a send rejects, the messages sent are those before the first rejected
  one, the last thing the invocation does is log the error, and no timer is set. The
  15000 ms timer is set exactly when every send succeeded (the source comments it
  "Cleanup after success"); when it fires, the directory is removed and the socket is
  ended. Whatever else runs in between: in any state, a rejected send makes the waiting
  invocation log and return, a returned invocation does nothing more, and a settled send
  sets the timer only if it is the last send and is fulfilled.
\<close>

theorem failed_send_skips_rest_and_cleanup:
  assumes "j \<noteq> []"
  shows "((\<exists>p \<in> set (planned s). sendMessage_throws ev j p) \<longrightarrow>
            sent_messages (sendWelcomeMessages_uninterrupted ev (Some j) s) =
              sent_messages s @
              map (Pair j) (takeWhile (\<lambda>p. \<not> sendMessage_throws ev j p) (planned s)) \<and>
            last (trace (sendWelcomeMessages_uninterrupted ev (Some j) s)) =
              ConsoleError (FailedToSendWelcome SendRejected) \<and>
            timers (sendWelcomeMessages_uninterrupted ev (Some j) s) = timers s) \<and>
         ((\<forall>p \<in> set (planned s). \<not> sendMessage_throws ev j p) \<longrightarrow>
            sent_messages (sendWelcomeMessages_uninterrupted ev (Some j) s) =
              sent_messages s @ map (Pair j) (planned s) \<and>
            timers (sendWelcomeMessages_uninterrupted ev (Some j) s) =
              timers s @ [(15000, FinalCleanup)] \<and>
            dir (timer_fired ev (15000, FinalCleanup)
                   (sendWelcomeMessages_uninterrupted ev (Some j) s)) = Absent \<and>
            last (trace (timer_fired ev (15000, FinalCleanup)
                           (sendWelcomeMessages_uninterrupted ev (Some j) s))) = SockEnd) \<and>
         (i < length (runs t) \<and> runs t ! i = Suspended j st \<and>
          sendMessage_throws ev j (awaited st) \<longrightarrow>
            step ev (SendSettled i) t =
              emit (ConsoleError (FailedToSendWelcome SendRejected))
                (t\<lparr>runs := (runs t)[i := Returned]\<rparr>)) \<and>
         (i < length (runs t) \<and> runs t ! i = Returned \<longrightarrow> step ev (SendSettled i) t = t) \<and>
         (i < length (runs t) \<and> runs t ! i = Suspended j st \<longrightarrow>
            timers (step ev (SendSettled i) t) =
              timers t @ (if st = AwaitFinal \<and> \<not> sendMessage_throws ev j (awaited st)
                          then [(15000, FinalCleanup)] else []))"
proof -
  let ?F = "sendWelcomeMessages_uninterrupted ev (Some j) s"
  let ?i = "length (runs s)"
  let ?st = "first_stage (dir s)"
  have four: "(4::nat) \<le> 4" by simp
  note tr = started_drain(1) [OF assms four, of ev s, folded uninterrupted_funpow]
  note tm = started_drain(2) [OF assms four, of ev s, folded uninterrupted_funpow]
  note sm = started_drain_sent [OF assms four, of ev s, folded uninterrupted_funpow]
  have a: "(\<exists>p \<in> set (planned s). sendMessage_throws ev j p) \<longrightarrow>
            sent_messages ?F = sent_messages s @
              map (Pair j) (takeWhile (\<lambda>p. \<not> sendMessage_throws ev j p) (planned s)) \<and>
            last (trace ?F) = ConsoleError (FailedToSendWelcome SendRejected) \<and>
            timers ?F = timers s"
  proof
    assume f: "\<exists>p \<in> set (planned s). sendMessage_throws ev j p"
    then have "\<exists>st \<in> set (stages_from ?st). sendMessage_throws ev j (awaited st)"
      by (simp add: planned_stages)
    then have "last (expected ev ?i j (credsPath (sessionDir (sid s))) (stages_from ?st)) =
        ConsoleError (FailedToSendWelcome SendRejected)"
      by (rule expected_last_rejected)
    moreover have "expected ev ?i j (credsPath (sessionDir (sid s))) (stages_from ?st) \<noteq> []"
      by (cases ?st) simp_all
    ultimately have "last (trace ?F) = ConsoleError (FailedToSendWelcome SendRejected)"
      by (simp add: tr)
    with f sm tm show "sent_messages ?F = sent_messages s @
              map (Pair j) (takeWhile (\<lambda>p. \<not> sendMessage_throws ev j p) (planned s)) \<and>
            last (trace ?F) = ConsoleError (FailedToSendWelcome SendRejected) \<and>
            timers ?F = timers s"
      by simp
  qed
  have b: "(\<forall>p \<in> set (planned s). \<not> sendMessage_throws ev j p) \<longrightarrow>
            sent_messages ?F = sent_messages s @ map (Pair j) (planned s) \<and>
            timers ?F = timers s @ [(15000, FinalCleanup)] \<and>
            dir (timer_fired ev (15000, FinalCleanup) ?F) = Absent \<and>
            last (trace (timer_fired ev (15000, FinalCleanup) ?F)) = SockEnd"
  proof
    assume ok: "\<forall>p \<in> set (planned s). \<not> sendMessage_throws ev j p"
    then have tw: "takeWhile (\<lambda>p. \<not> sendMessage_throws ev j p) (planned s) = planned s"
      by (simp add: takeWhile_eq_all_conv)
    have t2: "timers ?F = timers s @ [(15000, FinalCleanup)]"
      using ok by (simp add: tm)
    have "dir (timer_fired ev (15000, FinalCleanup) ?F) = Absent"
      by (simp add: timer_fired_def t2 final_cleanup_def)
    moreover have "last (trace (timer_fired ev (15000, FinalCleanup) ?F)) = SockEnd"
      by (simp add: timer_fired_def t2 final_cleanup_def)
    ultimately show "sent_messages ?F = sent_messages s @ map (Pair j) (planned s) \<and>
            timers ?F = timers s @ [(15000, FinalCleanup)] \<and>
            dir (timer_fired ev (15000, FinalCleanup) ?F) = Absent \<and>
            last (trace (timer_fired ev (15000, FinalCleanup) ?F)) = SockEnd"
      using sm t2 by (simp add: tw)
  qed
  have c: "i < length (runs t) \<and> runs t ! i = Suspended j st \<and>
          sendMessage_throws ev j (awaited st) \<longrightarrow>
            step ev (SendSettled i) t =
              emit (ConsoleError (FailedToSendWelcome SendRejected))
                (t\<lparr>runs := (runs t)[i := Returned]\<rparr>)"
    by (simp add: settled_rejected)
  have d: "i < length (runs t) \<and> runs t ! i = Returned \<longrightarrow> step ev (SendSettled i) t = t"
    by (simp add: settled_idle)
  have e: "i < length (runs t) \<and> runs t ! i = Suspended j st \<longrightarrow>
            timers (step ev (SendSettled i) t) =
              timers t @ (if st = AwaitFinal \<and> \<not> sendMessage_throws ev j (awaited st)
                          then [(15000, FinalCleanup)] else [])"
    using settled_timers [of i t j st ev] by simp
  from a b c d e show ?thesis by blast
qed

text \<open>Both cases on a fresh session: the image send rejected, and all sends accepted.\<close>

theorem failed_send_skips_rest_and_cleanup_witness:
  "timers (sendWelcomeMessages_uninterrupted image_rejecting_env (Some jid0) fresh_session) =
     [(60000, CleanupTimeout)] \<and>
   sent_messages (sendWelcomeMessages_uninterrupted image_rejecting_env (Some jid0) fresh_session) = [] \<and>
   timers (sendWelcomeMessages_uninterrupted sample_env (Some jid0) fresh_session) =
     [(60000, CleanupTimeout), (15000, FinalCleanup)] \<and>
   sent_messages (sendWelcomeMessages_uninterrupted sample_env (Some jid0) fresh_session) =
     [(jid0, welcomeImage), (jid0, welcomeAudio), (jid0, finalMessage)]"
proof -
  have j: "jid0 \<noteq> []" by (simp add: jid0_def)
  have p: "planned fresh_session = [welcomeImage, welcomeAudio, finalMessage]"
    by (simp add: planned_def sample_route)
  have a: "\<exists>p \<in> set (planned fresh_session). sendMessage_throws image_rejecting_env jid0 p"
    by (simp add: p image_rejecting_env_def)
  have b: "\<forall>p \<in> set (planned fresh_session). \<not> sendMessage_throws sample_env jid0 p"
    by (simp add: sample_env_def)
  have e: "sent_messages fresh_session = []" "timers fresh_session = [(60000, CleanupTimeout)]"
    by (simp_all add: sample_route sent_messages_def)
  show ?thesis
    using failed_send_skips_rest_and_cleanup [OF j, of fresh_session image_rejecting_env] a
          failed_send_skips_rest_and_cleanup [OF j, of fresh_session sample_env] b
    by (simp add: p e image_rejecting_env_def)
qed

text \<open>
  The send of the welcome image rejects: the error is logged and no cleanup timer is
  set, so C3 does not hold as stated.
\<close>

theorem cleanup_timer_missing_after_failed_send:
  "sendMessage_throws image_rejecting_env jid0 welcomeImage \<and>
   ConsoleError (FailedToSendWelcome SendRejected) \<in>
     set (trace (sendWelcomeMessages_uninterrupted image_rejecting_env (Some jid0) fresh_session)) \<and>
   (15000, FinalCleanup) \<notin>
     set (timers (sendWelcomeMessages_uninterrupted image_rejecting_env (Some jid0) fresh_session))"
proof -
  have j: "jid0 \<noteq> []" by (simp add: jid0_def)
  have four: "(4::nat) \<le> 4" by simp
  have f: "first_stage (dir fresh_session) = AwaitImage"
    by (simp add: sample_route first_stage_def)
  have p: "planned fresh_session = [welcomeImage, welcomeAudio, finalMessage]"
    by (simp add: planned_def sample_route)
  have th: "sendMessage_throws image_rejecting_env jid0 welcomeImage"
    by (simp add: image_rejecting_env_def)
  note tr = started_drain(1) [OF j four, of image_rejecting_env fresh_session,
              folded uninterrupted_funpow, unfolded f]
  note tm = started_drain(2) [OF j four, of image_rejecting_env fresh_session,
              folded uninterrupted_funpow, unfolded p]
  have t: "timers fresh_session = [(60000, CleanupTimeout)]" by (simp add: sample_route)
  show ?thesis
    using th by (simp add: tr tm t)
qed

lemma qr_calls_emit [simp]: "qr_calls (emit e s) = qr_calls s + (if is_qr_json e then 1 else 0)"
  by (simp add: qr_calls_def)

lemma qr_calls_setTimeout [simp]: "qr_calls (setTimeout cb ms s) = qr_calls s"
  by (simp add: qr_calls_def)

lemma qr_calls_removeSession [simp]: "qr_calls (removeSession s) = qr_calls s"
  by (simp add: qr_calls_def)

lemma sent_messages_setTimeout [simp]: "sent_messages (setTimeout cb ms s) = sent_messages s"
  by (simp add: sent_messages_def)

lemma sent_messages_removeSession [simp]: "sent_messages (removeSession s) = sent_messages s"
  by (auto simp: sent_messages_def)

lemma qr_calls_other [simp]:
  "qr_calls (s\<lparr>res := r\<rparr>) = qr_calls s" "qr_calls (s\<lparr>timers := ts\<rparr>) = qr_calls s"
  "qr_calls (s\<lparr>connectionSuccess := b\<rparr>) = qr_calls s" "qr_calls (s\<lparr>awaiting := a\<rparr>) = qr_calls s"
  "qr_calls (s\<lparr>qrSent := b\<rparr>) = qr_calls s" "qr_calls (s\<lparr>user_id := i\<rparr>) = qr_calls s"
  "qr_calls (s\<lparr>dir := d\<rparr>) = qr_calls s" "qr_calls (s\<lparr>runs := rs\<rparr>) = qr_calls s"
  by (simp_all add: qr_calls_def)

lemma sent_messages_other [simp]:
  "sent_messages (s\<lparr>res := r\<rparr>) = sent_messages s" "sent_messages (s\<lparr>timers := ts\<rparr>) = sent_messages s"
  "sent_messages (s\<lparr>connectionSuccess := b\<rparr>) = sent_messages s"
  "sent_messages (s\<lparr>awaiting := a\<rparr>) = sent_messages s"
  "sent_messages (s\<lparr>qrSent := b\<rparr>) = sent_messages s" "sent_messages (s\<lparr>user_id := i\<rparr>) = sent_messages s"
  "sent_messages (s\<lparr>dir := d\<rparr>) = sent_messages s" "sent_messages (s\<lparr>runs := rs\<rparr>) = sent_messages s"
  by (simp_all add: sent_messages_def)

lemma untouched_refl [simp]: "untouched s s"
  by (simp add: untouched_def)

lemma untouched_trans: "untouched s t \<Longrightarrow> untouched t r \<Longrightarrow> untouched s r"
  by (simp add: untouched_def)

lemma sendWelcomeMessages_untouched:
  "untouched s (sendWelcomeMessages ev fb s)"
  "timers (sendWelcomeMessages ev fb s) = timers s"
  by (auto simp: sendWelcomeMessages_def Let_def untouched_def qr_calls_def split: option.splits)

lemma after_send_untouched:
  "untouched s (after_send i j st s)"
  "timers (after_send i j st s) = timers s \<or>
   timers (after_send i j st s) = timers s @ [(15000, FinalCleanup)]"
  by (cases st; simp add: untouched_def qr_calls_def)+

lemma settled_untouched:
  "untouched s (sendMessage_settled ev i s)"
  "timers (sendMessage_settled ev i s) = timers s \<or>
   timers (sendMessage_settled ev i s) = timers s @ [(15000, FinalCleanup)]"
proof -
  have u: "untouched s (emit e s)" if "\<not> is_qr_json e" for e
    using that by (simp add: untouched_def)
  show "untouched s (sendMessage_settled ev i s)"
    using after_send_untouched(1) [of "emit (Sent i j (awaited st)) s" i j st for j st]
    by (auto simp: sendMessage_settled_def untouched_def qr_calls_def split: invocation.splits)
  show "timers (sendMessage_settled ev i s) = timers s \<or>
        timers (sendMessage_settled ev i s) = timers s @ [(15000, FinalCleanup)]"
    using after_send_untouched(2) [of i j st "emit (Sent i j (awaited st)) s" for j st]
    by (auto simp: sendMessage_settled_def split: invocation.splits)
qed

lemma count_list_remove1:
  "x \<in> set xs \<Longrightarrow> count_list (remove1 x xs) x + 1 = count_list xs x"
  by (induction xs) auto

lemma resolveJid_timers [simp]: "resolveJid ev (s\<lparr>timers := ts\<rparr>) = resolveJid ev s"
  by (simp add: resolveJid_def)

lemma truthy_Some: "truthy x \<longleftrightarrow> (\<exists>j. x = Some j \<and> j \<noteq> [])"
  by (cases x) (simp_all add: truthy_def)

text \<open>
  C7. An open event (handler running through, as for C5) sets \<open>connectionSuccess\<close>.
  With a resolvable identity the handler starts the onboarding at once: it calls the
  first send to that identity, and when the sends of this invocation settle the messages
  go out to it. Without one, only a timer of 5000 ms is set. When such a timer fires it
  is consumed and never set again by the run; the function is called without an
  identity argument, so it falls back to the identity the socket has by then and
  onboards that one in the same way, and if the identity is still missing it logs that
  and does nothing else.
\<close>

theorem open_event_onboards_now_or_once_later:
  assumes "connection u = Some Open" and "\<not> truthy (qr u) \<or> qrSent s"
  shows "connectionSuccess (step ev (ConnectionUpdate u) s) \<and>
         (resolveJid ev s = Some j \<and> j \<noteq> [] \<longrightarrow>
            step ev (ConnectionUpdate u) s =
              s\<lparr>connectionSuccess := True,
                runs := runs s @ [Suspended j (first_stage (dir s))],
                trace := trace s @
                  [ConsoleLog Connected,
                   SendMessage (length (runs s)) j
                     (case dir s of Present (Some content) \<Rightarrow> credsDocument content
                      | _ \<Rightarrow> welcomeImage)]\<rparr> \<and>
            sent_messages
              (run ev (replicate 4 (SendSettled (length (runs s)))) (step ev (ConnectionUpdate u) s)) =
              sent_messages s @
              map (Pair j) (takeWhile (\<lambda>p. \<not> sendMessage_throws ev j p) (planned s))) \<and>
         (\<not> truthy (resolveJid ev s) \<longrightarrow>
            step ev (ConnectionUpdate u) s =
              setTimeout DelayedWelcome 5000
                (emit (ConsoleLog JidNotFoundDelaying)
                   (emit (ConsoleLog Connected) (s\<lparr>connectionSuccess := True\<rparr>)))) \<and>
         ((5000, DelayedWelcome) \<in> set (timers t) \<longrightarrow>
            count_list (timers (timer_fired ev (5000, DelayedWelcome) t)) (5000, DelayedWelcome) + 1 =
              count_list (timers t) (5000, DelayedWelcome) \<and>
            (resolveJid ev t = Some k \<and> k \<noteq> [] \<longrightarrow>
               timer_fired ev (5000, DelayedWelcome) t =
                 t\<lparr>timers := remove1 (5000, DelayedWelcome) (timers t),
                   runs := runs t @ [Suspended k (first_stage (dir t))],
                   trace := trace t @
                     [SendMessage (length (runs t)) k
                        (case dir t of Present (Some content) \<Rightarrow> credsDocument content
                         | _ \<Rightarrow> welcomeImage)]\<rparr> \<and>
               sent_messages
                 (run ev (replicate 4 (SendSettled (length (runs t))))
                    (timer_fired ev (5000, DelayedWelcome) t)) =
                 sent_messages t @
                 map (Pair k) (takeWhile (\<lambda>p. \<not> sendMessage_throws ev k p) (planned t))) \<and>
            (\<not> truthy (resolveJid ev t) \<longrightarrow>
               timer_fired ev (5000, DelayedWelcome) t =
                 emit (ConsoleLog NoUserJidFound)
                   (t\<lparr>timers := remove1 (5000, DelayedWelcome) (timers t)\<rparr>)))"
proof -
  let ?s1 = "emit (ConsoleLog Connected) (s\<lparr>connectionSuccess := True\<rparr>)"
  let ?t0 = "t\<lparr>timers := remove1 (5000, DelayedWelcome) (timers t)\<rparr>"
  have four: "(4::nat) \<le> 4" by simp
  have fs: "awaited (first_stage d) =
      (case d of Present (Some content) \<Rightarrow> credsDocument content | _ \<Rightarrow> welcomeImage)" for d
    by (simp add: first_stage_def split: dir_state.splits option.splits)
  have rj: "resolveJid ev ?s1 = resolveJid ev s"
    by (simp add: resolveJid_def emit_def)
  have st: "step ev (ConnectionUpdate u) s = open_branch ev u s"
    using assms by (auto simp: on_connection_update_def after_qr_def close_branch_not_close)
  have ob: "open_branch ev u s =
      (if \<not> truthy (resolveJid ev s)
       then setTimeout DelayedWelcome 5000 (emit (ConsoleLog JidNotFoundDelaying) ?s1)
       else sendWelcomeMessages ev (resolveJid ev s) ?s1)"
    using assms(1) by (simp add: open_branch_def Let_def rj)
  have cs: "connectionSuccess (open_branch ev u s)"
    using sendWelcomeMessages_untouched(1) [of ?s1 ev "resolveJid ev s"]
    by (simp add: ob untouched_def)
  have now: "open_branch ev u s =
              s\<lparr>connectionSuccess := True,
                runs := runs s @ [Suspended j (first_stage (dir s))],
                trace := trace s @
                  [ConsoleLog Connected,
                   SendMessage (length (runs s)) j
                     (case dir s of Present (Some content) \<Rightarrow> credsDocument content
                      | _ \<Rightarrow> welcomeImage)]\<rparr>"
       and now_sent: "sent_messages
              (run ev (replicate 4 (SendSettled (length (runs s)))) (open_branch ev u s)) =
              sent_messages s @
              map (Pair j) (takeWhile (\<lambda>p. \<not> sendMessage_throws ev j p) (planned s))"
    if r: "resolveJid ev s = Some j" and j: "j \<noteq> []"
  proof -
    have o: "open_branch ev u s = sendWelcomeMessages ev (Some j) ?s1"
      using r j by (simp add: ob truthy_def)
    show "open_branch ev u s =
              s\<lparr>connectionSuccess := True,
                runs := runs s @ [Suspended j (first_stage (dir s))],
                trace := trace s @
                  [ConsoleLog Connected,
                   SendMessage (length (runs s)) j
                     (case dir s of Present (Some content) \<Rightarrow> credsDocument content
                      | _ \<Rightarrow> welcomeImage)]\<rparr>"
      unfolding o sendWelcomeMessages_known [OF j] fs by (simp add: emit_def)
    have "sent_messages ((sendMessage_settled ev (length (runs ?s1)) ^^ 4)
             (sendWelcomeMessages ev (Some j) ?s1)) =
          sent_messages ?s1 @
          map (Pair j) (takeWhile (\<lambda>p. \<not> sendMessage_throws ev j p) (planned ?s1))"
      using j four by (rule started_drain_sent)
    then show "sent_messages
              (run ev (replicate 4 (SendSettled (length (runs s)))) (open_branch ev u s)) =
              sent_messages s @
              map (Pair j) (takeWhile (\<lambda>p. \<not> sendMessage_throws ev j p) (planned s))"
      unfolding o run_replicate step_SendSettled by (simp add: planned_def)
  qed
  have later: "open_branch ev u s =
      setTimeout DelayedWelcome 5000 (emit (ConsoleLog JidNotFoundDelaying) ?s1)"
    if "\<not> truthy (resolveJid ev s)"
    using that by (simp add: ob)
  have fired: "timer_fired ev (5000, DelayedWelcome) t = sendWelcomeMessages ev (resolveJid ev t) ?t0"
    if "(5000, DelayedWelcome) \<in> set (timers t)"
    using that by (simp add: timer_fired_def sendWelcomeMessages_None)
  have cnt: "count_list (timers (timer_fired ev (5000, DelayedWelcome) t)) (5000, DelayedWelcome) + 1 =
              count_list (timers t) (5000, DelayedWelcome)"
    if m: "(5000, DelayedWelcome) \<in> set (timers t)"
    using count_list_remove1 [OF m]
    by (simp add: fired [OF m] sendWelcomeMessages_untouched(2))
  have dk: "timer_fired ev (5000, DelayedWelcome) t =
                 t\<lparr>timers := remove1 (5000, DelayedWelcome) (timers t),
                   runs := runs t @ [Suspended k (first_stage (dir t))],
                   trace := trace t @
                     [SendMessage (length (runs t)) k
                        (case dir t of Present (Some content) \<Rightarrow> credsDocument content
                         | _ \<Rightarrow> welcomeImage)]\<rparr>"
       and dk_sent: "sent_messages
                 (run ev (replicate 4 (SendSettled (length (runs t))))
                    (timer_fired ev (5000, DelayedWelcome) t)) =
                 sent_messages t @
                 map (Pair k) (takeWhile (\<lambda>p. \<not> sendMessage_throws ev k p) (planned t))"
    if m: "(5000, DelayedWelcome) \<in> set (timers t)" and r: "resolveJid ev t = Some k" and k: "k \<noteq> []"
  proof -
    have o: "timer_fired ev (5000, DelayedWelcome) t = sendWelcomeMessages ev (Some k) ?t0"
      using fired [OF m] r by simp
    show "timer_fired ev (5000, DelayedWelcome) t =
                 t\<lparr>timers := remove1 (5000, DelayedWelcome) (timers t),
                   runs := runs t @ [Suspended k (first_stage (dir t))],
                   trace := trace t @
                     [SendMessage (length (runs t)) k
                        (case dir t of Present (Some content) \<Rightarrow> credsDocument content
                         | _ \<Rightarrow> welcomeImage)]\<rparr>"
      unfolding o sendWelcomeMessages_known [OF k] fs by simp
    have "sent_messages ((sendMessage_settled ev (length (runs ?t0)) ^^ 4)
             (sendWelcomeMessages ev (Some k) ?t0)) =
          sent_messages ?t0 @
          map (Pair k) (takeWhile (\<lambda>p. \<not> sendMessage_throws ev k p) (planned ?t0))"
      using k four by (rule started_drain_sent)
    then show "sent_messages
                 (run ev (replicate 4 (SendSettled (length (runs t))))
                    (timer_fired ev (5000, DelayedWelcome) t)) =
                 sent_messages t @
                 map (Pair k) (takeWhile (\<lambda>p. \<not> sendMessage_throws ev k p) (planned t))"
      unfolding o run_replicate step_SendSettled by (simp add: planned_def)
  qed
  have unk: "timer_fired ev (5000, DelayedWelcome) t = emit (ConsoleLog NoUserJidFound) ?t0"
    if "(5000, DelayedWelcome) \<in> set (timers t)" and "\<not> truthy (resolveJid ev t)"
    using that by (simp add: fired sendWelcomeMessages_unknown)
  show ?thesis
    unfolding st using cs now now_sent later cnt dk dk_sent unk by blast
qed

section \<open>Pairing codes\<close>

lemma res_status_json_InlD:
  "res_status_json c b s = Inl (e, s') \<Longrightarrow>
     s' = s\<lparr>res := (res s)\<lparr>statusCode := c\<rparr>, trace := trace s @ [ResJson c b]\<rparr> \<and>
     e = ERR_HTTP_HEADERS_SENT \<and> headersSent (res s)"
  by (cases "headersSent (res s)") (auto simp: res_status_json_open res_status_json_sent)

lemma res_status_json_InrD:
  "res_status_json c b s = Inr s' \<Longrightarrow>
     s' = s\<lparr>res := \<lparr>statusCode = c, sent = Some (c, b)\<rparr>, trace := trace s @ [ResJson c b]\<rparr> \<and>
     \<not> headersSent (res s)"
  by (cases "headersSent (res s)") (auto simp: res_status_json_open res_status_json_sent)

lemma untouched_qr_frame: "untouched s s' \<Longrightarrow> qr_frame s s'"
  by (simp add: untouched_def qr_frame_def)

lemma qr_frame_open_branch: "qr_frame s (open_branch ev u s)"
proof -
  let ?s1 = "emit (ConsoleLog Connected) (s\<lparr>connectionSuccess := True\<rparr>)"
  have "qr_frame ?s1 (sendWelcomeMessages ev fb ?s1)" for fb
    by (rule untouched_qr_frame) (rule sendWelcomeMessages_untouched(1))
  then show ?thesis
    by (simp add: open_branch_def Let_def qr_frame_def)
qed

lemma qr_frame_close_branch: "qr_frame s (close_branch ev u s)"
  by (auto simp: close_branch_def Let_def qr_frame_def qr_calls_def
      dest!: res_status_json_InlD res_status_json_InrD split: sum.splits)

lemma qr_frame_after_qr: "qr_frame s (after_qr ev u s)"
  using qr_frame_open_branch [of s ev u] qr_frame_close_branch [of "open_branch ev u s" ev u]
  by (simp add: after_qr_def qr_frame_def)

lemma qr_frame_cleanup_timeout: "qr_frame s (cleanup_timeout s)"
  by (auto simp: cleanup_timeout_def Let_def qr_frame_def qr_calls_def
      dest!: res_status_json_InlD res_status_json_InrD split: sum.splits)

lemma qr_frame_run_callback: "qr_frame s (run_callback ev cb s)"
proof (cases cb)
  case CleanupTimeout
  then show ?thesis by (simp add: qr_frame_cleanup_timeout)
next
  case Reconnect
  then show ?thesis by (simp add: qr_frame_def)
next
  case DelayedWelcome
  then show ?thesis by (simp add: untouched_qr_frame sendWelcomeMessages_untouched(1))
next
  case FinalCleanup
  then show ?thesis by (simp add: qr_frame_def final_cleanup_def)
qed

lemma qr_frame_timer_fired: "qr_frame s (timer_fired ev t s)"
  using qr_frame_run_callback [of "s\<lparr>timers := remove1 t (timers s)\<rparr>" ev "snd t"]
  by (simp add: timer_fired_def qr_frame_def)

lemma qr_frame_step_sent:
  assumes "qrSent s" and "\<not> is_settle e"
  shows "qr_frame s (step ev e s)"
proof (cases e)
  case (ConnectionUpdate u)
  then show ?thesis using assms by (simp add: on_connection_update_def qr_frame_after_qr)
next
  case (ToDataURLSettled img)
  then show ?thesis using assms by simp
next
  case (TimerFired t)
  then show ?thesis by (simp add: qr_frame_timer_fired)
next
  case (SendSettled i)
  then show ?thesis by (simp add: untouched_qr_frame settled_untouched)
next
  case (UserKnown i)
  then show ?thesis by (simp add: qr_frame_def)
next
  case (CredsUpdate c)
  then show ?thesis by (simp add: qr_frame_def)
qed

lemma settle_idle: "awaiting s = None \<Longrightarrow> toDataURL_settled ev img s = s"
  by (simp add: toDataURL_settled_def)

lemma qr_catch_frame:
  "qr_catch err s = Inr s' \<Longrightarrow> qr_frame s s'"
  "qr_catch err s = Inl (e, s') \<Longrightarrow> qr_frame s s'"
  by (auto simp: qr_catch_def Let_def qr_frame_def qr_calls_def
      dest!: res_status_json_InlD res_status_json_InrD split: if_splits)

lemma settle_rejected:
  assumes "awaiting s = Some u"
  shows "qrSent (toDataURL_settled ev None s) = qrSent s"
    and "awaiting (toDataURL_settled ev None s) = None"
    and "qr_calls (toDataURL_settled ev None s) = qr_calls s"
proof -
  let ?s0 = "s\<lparr>awaiting := None\<rparr>"
  have f0: "qrSent ?s0 = qrSent s \<and> awaiting ?s0 = None \<and> qr_calls ?s0 = qr_calls s"
    by simp
  have "qrSent (toDataURL_settled ev None s) = qrSent s \<and>
        awaiting (toDataURL_settled ev None s) = None \<and>
        qr_calls (toDataURL_settled ev None s) = qr_calls s"
  proof (cases "qr_catch RenderRejected ?s0")
    case (Inl p)
    obtain e s' where p: "p = (e, s')" by (cases p)
    from qr_catch_frame(2) [OF Inl [unfolded p]] f0 Inl p assms show ?thesis
      by (simp add: toDataURL_settled_def qr_try_def qr_frame_def)
  next
    case (Inr s')
    from qr_catch_frame(1) [OF Inr] qr_frame_after_qr [of s' ev u] f0 Inr assms show ?thesis
      by (simp add: toDataURL_settled_def qr_try_def qr_frame_def)
  qed
  then show "qrSent (toDataURL_settled ev None s) = qrSent s"
    and "awaiting (toDataURL_settled ev None s) = None"
    and "qr_calls (toDataURL_settled ev None s) = qr_calls s" by simp_all
qed

lemma qr_try_calls:
  "qr_try u img s = Inr s' \<Longrightarrow>
     qrSent s' = qrSent s \<and> awaiting s' = awaiting s \<and> qr_calls s' \<le> qr_calls s + 1"
  "qr_try u img s = Inl (e, s') \<Longrightarrow>
     qrSent s' = qrSent s \<and> awaiting s' = awaiting s \<and> qr_calls s' \<le> qr_calls s + 1"
  by (auto simp: qr_try_def res_json_def qr_calls_def
      dest!: res_status_json_InlD res_status_json_InrD split: option.splits)

lemma settle_any:
  assumes "awaiting s = Some u"
  shows "qrSent (toDataURL_settled ev img s) = qrSent s \<and>
         awaiting (toDataURL_settled ev img s) = None \<and>
         qr_calls (toDataURL_settled ev img s) \<le> qr_calls s + 1"
proof -
  let ?s0 = "s\<lparr>awaiting := None\<rparr>"
  have f0: "qrSent ?s0 = qrSent s \<and> awaiting ?s0 = None \<and> qr_calls ?s0 = qr_calls s"
    by simp
  show ?thesis
  proof (cases "qr_try u img ?s0")
    case (Inr s1)
    from qr_try_calls(1) [OF Inr] qr_frame_after_qr [of s1 ev u] f0 Inr assms show ?thesis
      by (simp add: toDataURL_settled_def qr_frame_def)
  next
    case (Inl p)
    obtain e s1 where p: "p = (e, s1)" by (cases p)
    note t = qr_try_calls(2) [OF Inl [unfolded p]]
    show ?thesis
    proof (cases "qr_catch e s1")
      case (Inl q)
      obtain e' s2 where q: "q = (e', s2)" by (cases q)
      from qr_catch_frame(2) [OF Inl [unfolded q]] t f0 Inl q p \<open>qr_try u img ?s0 = Inl p\<close> assms
      show ?thesis
        by (simp add: toDataURL_settled_def qr_frame_def)
    next
      case (Inr s2)
      from qr_catch_frame(1) [OF Inr] qr_frame_after_qr [of s2 ev u] t f0 Inr p
        \<open>qr_try u img ?s0 = Inl p\<close> assms
      show ?thesis
        by (simp add: toDataURL_settled_def qr_frame_def)
    qed
  qed
qed

lemma one_code_frame: "qr_frame s s' \<Longrightarrow> one_code s \<Longrightarrow> one_code s'"
  unfolding one_code_def qr_frame_def by presburger

lemma one_code_step: "one_code s \<Longrightarrow> one_code (step ev e s)"
proof (cases e)
  case (ConnectionUpdate u)
  assume j: "one_code s"
  show ?thesis
  proof (cases "truthy (qr u) \<and> \<not> qrSent s")
    case True
    with j ConnectionUpdate show ?thesis
      by (simp add: on_connection_update_def one_code_def)
  next
    case False
    with ConnectionUpdate one_code_frame [OF qr_frame_after_qr [of s ev u] j] show ?thesis
      by (auto simp: on_connection_update_def)
  qed
next
  case (ToDataURLSettled img)
  assume j: "one_code s"
  show ?thesis
  proof (cases "awaiting s")
    case None
    with j ToDataURLSettled show ?thesis by (simp add: settle_idle)
  next
    case (Some u)
    from settle_any [OF Some, of ev img] j Some ToDataURLSettled show ?thesis
      by (auto simp: one_code_def split: if_splits)
  qed
next
  case (TimerFired t)
  assume "one_code s"
  with TimerFired one_code_frame [OF qr_frame_timer_fired [of s ev t]] show ?thesis
    by simp
next
  case (SendSettled i)
  assume j: "one_code s"
  have "qr_frame s (step ev e s)"
    using SendSettled by (simp add: untouched_qr_frame settled_untouched)
  then show ?thesis using j by (rule one_code_frame)
next
  case (UserKnown i)
  assume j: "one_code s"
  have "qr_frame s (step ev e s)" using UserKnown by (simp add: qr_frame_def)
  then show ?thesis using j by (rule one_code_frame)
next
  case (CredsUpdate c)
  assume j: "one_code s"
  have "qr_frame s (step ev e s)" using CredsUpdate by (simp add: qr_frame_def)
  then show ?thesis using j by (rule one_code_frame)
qed

lemma one_code_run: "one_code s \<Longrightarrow> one_code (run ev evs s)"
  by (induction evs arbitrary: s) (simp_all add: one_code_step)

lemma one_code_route: "one_code (route now suffix d)"
  by (simp add: one_code_def route_def qr_calls_def)

lemma run_append: "run ev (xs @ ys) s = run ev ys (run ev xs s)"
  by (induction xs arbitrary: s) simp_all

lemma qrSent_step: "qrSent s \<Longrightarrow> qrSent (step ev e s)"
proof (cases "is_settle e")
  case False
  assume "qrSent s"
  with qr_frame_step_sent [OF this False, of ev] show ?thesis by (simp add: qr_frame_def)
next
  case True
  assume q: "qrSent s"
  from True obtain img where e: "e = ToDataURLSettled img" by (cases e) auto
  show ?thesis
  proof (cases "awaiting s")
    case None
    with q e show ?thesis by (simp add: settle_idle)
  next
    case (Some u)
    with settle_any [OF Some, of ev img] q e show ?thesis by simp
  qed
qed

lemma qrSent_run: "qrSent s \<Longrightarrow> qrSent (run ev evs s)"
  by (induction evs arbitrary: s) (simp_all add: qrSent_step)

lemma pairing_code_suppressed:
  "qrSent s \<Longrightarrow> step ev (ConnectionUpdate (pairing_code c)) s = s"
  by (simp add: on_connection_update_def after_qr_def open_branch_def close_branch_def pairing_code_def)

lemma pairing_code_sets_flag:
  "c \<noteq> [] \<Longrightarrow> qrSent (step ev (ConnectionUpdate (pairing_code c)) s)"
  by (simp add: on_connection_update_def after_qr_def open_branch_def close_branch_def pairing_code_def
      truthy_def)

section \<open>Messages only after pairing\<close>

lemma all_sends_emit [simp]:
  "all_sends (emit e s) = all_sends s @ (if invocation_of e \<noteq> None then [e] else [])"
  by (simp add: all_sends_def)

lemma all_sends_other [simp]:
  "all_sends (s\<lparr>res := r\<rparr>) = all_sends s" "all_sends (s\<lparr>timers := ts\<rparr>) = all_sends s"
  "all_sends (s\<lparr>connectionSuccess := b\<rparr>) = all_sends s"
  "all_sends (s\<lparr>awaiting := a\<rparr>) = all_sends s"
  "all_sends (s\<lparr>qrSent := b\<rparr>) = all_sends s" "all_sends (s\<lparr>user_id := i\<rparr>) = all_sends s"
  "all_sends (s\<lparr>dir := d\<rparr>) = all_sends s" "all_sends (s\<lparr>runs := rs\<rparr>) = all_sends s"
  "all_sends (setTimeout cb ms s) = all_sends s" "all_sends (removeSession s) = all_sends s"
  by (simp_all add: all_sends_def)

text \<open>What the parts of the handler and the timers leave as it is.\<close>

lemma close_branch_keeps:
  "connectionSuccess (close_branch ev u s) = connectionSuccess s"
  "all_sends (close_branch ev u s) = all_sends s"
  "runs (close_branch ev u s) = runs s"
  "timers (close_branch ev u s) = timers s \<or> timers (close_branch ev u s) = timers s @ [(3000, Reconnect)]"
  "sent (res s) = Some x \<Longrightarrow> sent (res (close_branch ev u s)) = Some x"
  by (auto simp: close_branch_def Let_def headersSent_def all_sends_def
      dest!: res_status_json_InlD res_status_json_InrD split: sum.splits)

lemma cleanup_timeout_keeps:
  "connectionSuccess (cleanup_timeout s) = connectionSuccess s"
  "all_sends (cleanup_timeout s) = all_sends s"
  "runs (cleanup_timeout s) = runs s"
  "timers (cleanup_timeout s) = timers s"
  "sent (res s) = Some x \<Longrightarrow> sent (res (cleanup_timeout s)) = Some x"
  by (auto simp: cleanup_timeout_def Let_def all_sends_def headersSent_def
      dest!: res_status_json_InlD res_status_json_InrD split: sum.splits)

lemma final_cleanup_keeps:
  "connectionSuccess (final_cleanup s) = connectionSuccess s"
  "all_sends (final_cleanup s) = all_sends s"
  "runs (final_cleanup s) = runs s"
  "timers (final_cleanup s) = timers s"
  "res (final_cleanup s) = res s"
  by (simp_all add: final_cleanup_def)

lemma open_branch_keeps:
  "res (open_branch ev u s) = res s"
  "connectionSuccess s \<Longrightarrow> connectionSuccess (open_branch ev u s)"
  "connection u = Some Open \<Longrightarrow> connectionSuccess (open_branch ev u s)"
proof -
  let ?s1 = "emit (ConsoleLog Connected) (s\<lparr>connectionSuccess := True\<rparr>)"
  have u: "untouched ?s1 (sendWelcomeMessages ev fb ?s1)" for fb
    by (rule sendWelcomeMessages_untouched)
  show "res (open_branch ev u s) = res s"
    using u by (simp add: open_branch_def Let_def untouched_def)
  show "connectionSuccess s \<Longrightarrow> connectionSuccess (open_branch ev u s)"
    using u by (simp add: open_branch_def Let_def untouched_def)
  show "connection u = Some Open \<Longrightarrow> connectionSuccess (open_branch ev u s)"
    using u by (simp add: open_branch_def Let_def untouched_def)
qed

lemma after_qr_keeps:
  "connectionSuccess s \<Longrightarrow> connectionSuccess (after_qr ev u s)"
  "sent (res s) = Some x \<Longrightarrow> sent (res (after_qr ev u s)) = Some x"
  by (simp_all add: after_qr_def close_branch_keeps open_branch_keeps)

lemma after_qr_paired_only:
  assumes "paired_only s"
  shows "paired_only (after_qr ev u s)"
proof (cases "connectionSuccess s \<or> connection u = Some Open")
  case True
  then have "connectionSuccess (open_branch ev u s)"
    by (auto simp: open_branch_keeps)
  then show ?thesis
    by (simp add: after_qr_def paired_only_def close_branch_keeps)
next
  case False
  then have o: "open_branch ev u s = s" by (simp add: open_branch_not_open)
  from False assms have p: "all_sends s = []" "filter (\<lambda>t. snd t = DelayedWelcome) (timers s) = []"
    "runs s = []"
    by (simp_all add: paired_only_def)
  have "filter (\<lambda>t. snd t = DelayedWelcome) (timers (close_branch ev u s)) = []"
    using close_branch_keeps(4) [of ev u s] p(2) by auto
  with p(1,3) show ?thesis
    by (simp add: after_qr_def o paired_only_def close_branch_keeps)
qed

lemma qr_try_keeps:
  "qr_try u img s = Inr s' \<Longrightarrow>
     connectionSuccess s' = connectionSuccess s \<and> all_sends s' = all_sends s \<and>
     timers s' = timers s \<and> runs s' = runs s"
  "qr_try u img s = Inl (e, s') \<Longrightarrow>
     connectionSuccess s' = connectionSuccess s \<and> all_sends s' = all_sends s \<and>
     timers s' = timers s \<and> runs s' = runs s"
  by (auto simp: qr_try_def res_json_def all_sends_def
      dest!: res_status_json_InlD res_status_json_InrD split: option.splits)

lemma qr_catch_keeps:
  "qr_catch err s = Inr s' \<Longrightarrow>
     connectionSuccess s' = connectionSuccess s \<and> all_sends s' = all_sends s \<and>
     timers s' = timers s \<and> runs s' = runs s"
  "qr_catch err s = Inl (e, s') \<Longrightarrow>
     connectionSuccess s' = connectionSuccess s \<and> all_sends s' = all_sends s \<and>
     timers s' = timers s \<and> runs s' = runs s"
  by (auto simp: qr_catch_def Let_def all_sends_def
      dest!: res_status_json_InlD res_status_json_InrD split: if_splits)

lemma paired_only_same:
  "connectionSuccess s' = connectionSuccess s \<Longrightarrow> all_sends s' = all_sends s \<Longrightarrow>
   timers s' = timers s \<Longrightarrow> runs s' = runs s \<Longrightarrow> paired_only s \<Longrightarrow> paired_only s'"
  by (simp add: paired_only_def)

lemma settle_paired_only:
  assumes "paired_only s"
  shows "paired_only (toDataURL_settled ev img s)"
proof (cases "awaiting s")
  case None
  with assms show ?thesis by (simp add: settle_idle)
next
  case (Some u)
  let ?s0 = "s\<lparr>awaiting := None\<rparr>"
  have p0: "paired_only ?s0" using assms by (simp add: paired_only_def)
  show ?thesis
  proof (cases "qr_try u img ?s0")
    case (Inr s1)
    have "paired_only s1"
      by (rule paired_only_same [OF _ _ _ _ p0]) (simp_all add: qr_try_keeps(1) [OF Inr])
    then show ?thesis using Some Inr by (simp add: toDataURL_settled_def after_qr_paired_only)
  next
    case (Inl p)
    obtain e s1 where p: "p = (e, s1)" by (cases p)
    have p1: "paired_only s1"
      by (rule paired_only_same [OF _ _ _ _ p0]) (simp_all add: qr_try_keeps(2) [OF Inl [unfolded p]])
    show ?thesis
    proof (cases "qr_catch e s1")
      case (Inl q)
      obtain e' s2 where q: "q = (e', s2)" by (cases q)
      have "paired_only s2"
        by (rule paired_only_same [OF _ _ _ _ p1]) (simp_all add: qr_catch_keeps(2) [OF Inl [unfolded q]])
      then have "paired_only (emit (Unhandled e') s2)" by (simp add: paired_only_def)
      then show ?thesis using Some \<open>qr_try u img ?s0 = Inl p\<close> p Inl q
        by (simp add: toDataURL_settled_def)
    next
      case (Inr s2)
      have "paired_only s2"
        by (rule paired_only_same [OF _ _ _ _ p1]) (simp_all add: qr_catch_keeps(1) [OF Inr])
      then show ?thesis using Some \<open>qr_try u img ?s0 = Inl p\<close> p Inr
        by (simp add: toDataURL_settled_def after_qr_paired_only)
    qed
  qed
qed

lemma filter_remove1_empty: "filter P xs = [] \<Longrightarrow> filter P (remove1 x xs) = []"
  by (induction xs) (auto split: if_splits)

lemma timer_fired_paired_only:
  assumes "paired_only s"
  shows "paired_only (timer_fired ev t s)"
proof (cases "t \<in> set (timers s)")
  case False
  with assms show ?thesis by (simp add: timer_fired_def)
next
  case True
  let ?s0 = "s\<lparr>timers := remove1 t (timers s)\<rparr>"
  show ?thesis
  proof (cases "connectionSuccess s")
    case cs: True
    have "connectionSuccess (run_callback ev (snd t) ?s0)"
    proof (cases "snd t")
      case CleanupTimeout
      then show ?thesis using cs by (simp add: cleanup_timeout_keeps)
    next
      case Reconnect
      then show ?thesis using cs by simp
    next
      case DelayedWelcome
      then show ?thesis using cs sendWelcomeMessages_untouched(1) [of ?s0 ev None]
        by (simp add: untouched_def)
    next
      case FinalCleanup
      then show ?thesis using cs by (simp add: final_cleanup_keeps)
    qed
    then show ?thesis using True by (simp add: timer_fired_def paired_only_def)
  next
    case ncs: False
    with assms have p: "all_sends s = []" "filter (\<lambda>t. snd t = DelayedWelcome) (timers s) = []"
      "runs s = []"
      by (simp_all add: paired_only_def)
    from p(2) True have nd: "snd t \<noteq> DelayedWelcome"
      by (auto simp: filter_empty_conv)
    have p0: "paired_only ?s0" using p by (simp add: paired_only_def filter_remove1_empty)
    have "paired_only (run_callback ev (snd t) ?s0)"
    proof (cases "snd t")
      case CleanupTimeout
      have "paired_only (cleanup_timeout ?s0)"
        by (rule paired_only_same [OF _ _ _ _ p0]) (simp_all add: cleanup_timeout_keeps)
      then show ?thesis using CleanupTimeout by simp
    next
      case Reconnect
      then show ?thesis using p0 by (simp add: paired_only_def)
    next
      case DelayedWelcome
      with nd show ?thesis by simp
    next
      case FinalCleanup
      have "paired_only (final_cleanup ?s0)"
        by (rule paired_only_same [OF _ _ _ _ p0]) (simp_all add: final_cleanup_keeps)
      then show ?thesis using FinalCleanup by simp
    qed
    then show ?thesis using True by (simp add: timer_fired_def)
  qed
qed

lemma paired_only_step: "paired_only s \<Longrightarrow> paired_only (step ev e s)"
proof (cases e)
  case (ConnectionUpdate u)
  assume "paired_only s"
  then show ?thesis using ConnectionUpdate after_qr_paired_only [of s ev u]
    by (auto simp: on_connection_update_def paired_only_def)
next
  case (ToDataURLSettled img)
  assume "paired_only s"
  then show ?thesis using ToDataURLSettled by (simp add: settle_paired_only)
next
  case (TimerFired t)
  assume "paired_only s"
  then show ?thesis using TimerFired by (simp add: timer_fired_paired_only)
next
  case (SendSettled i)
  assume p: "paired_only s"
  show ?thesis
  proof (cases "connectionSuccess s")
    case True
    with settled_untouched(1) [of s ev i] have "connectionSuccess (sendMessage_settled ev i s)"
      by (simp add: untouched_def)
    then show ?thesis using SendSettled by (simp add: paired_only_def)
  next
    case False
    with p have "runs s = []" by (simp add: paired_only_def)
    then have "sendMessage_settled ev i s = s" by (simp add: settled_idle)
    with p SendSettled show ?thesis by simp
  qed
next
  case (UserKnown i)
  assume "paired_only s"
  then show ?thesis using UserKnown by (simp add: paired_only_def)
next
  case (CredsUpdate c)
  assume "paired_only s"
  then show ?thesis using CredsUpdate by (simp add: paired_only_def)
qed

lemma paired_only_run: "paired_only s \<Longrightarrow> paired_only (run ev evs s)"
  by (induction evs arbitrary: s) (simp_all add: paired_only_step)

lemma paired_only_route: "paired_only (route now suffix d)"
  by (simp add: paired_only_def route_def all_sends_def)

section \<open>The response once sent\<close>

lemma qr_try_sent_kept:
  "sent (res s) = Some x \<Longrightarrow> qr_try u img s = Inr s' \<Longrightarrow> sent (res s') = Some x"
  "sent (res s) = Some x \<Longrightarrow> qr_try u img s = Inl (e, s') \<Longrightarrow> sent (res s') = Some x"
  by (auto simp: qr_try_def res_json_def headersSent_def
      dest!: res_status_json_InlD res_status_json_InrD split: option.splits)

lemma qr_catch_sent_kept:
  "sent (res s) = Some x \<Longrightarrow> qr_catch err s = Inr s' \<Longrightarrow> sent (res s') = Some x"
  "sent (res s) = Some x \<Longrightarrow> qr_catch err s = Inl (e, s') \<Longrightarrow> sent (res s') = Some x"
  by (auto simp: qr_catch_def Let_def headersSent_def
      dest!: res_status_json_InlD res_status_json_InrD split: if_splits)

lemma settle_sent_kept:
  assumes "sent (res s) = Some x"
  shows "sent (res (toDataURL_settled ev img s)) = Some x"
proof (cases "awaiting s")
  case None
  with assms show ?thesis by (simp add: settle_idle)
next
  case (Some u)
  let ?s0 = "s\<lparr>awaiting := None\<rparr>"
  have s0: "sent (res ?s0) = Some x" using assms by simp
  show ?thesis
  proof (cases "qr_try u img ?s0")
    case (Inr s1)
    from qr_try_sent_kept(1) [OF s0 Inr] show ?thesis
      using Some Inr by (simp add: toDataURL_settled_def after_qr_keeps)
  next
    case (Inl p)
    obtain e s1 where p: "p = (e, s1)" by (cases p)
    note s1 = qr_try_sent_kept(2) [OF s0 Inl [unfolded p]]
    show ?thesis
    proof (cases "qr_catch e s1")
      case (Inl q)
      obtain e' s2 where q: "q = (e', s2)" by (cases q)
      from qr_catch_sent_kept(2) [OF s1 Inl [unfolded q]] show ?thesis
        using Some \<open>qr_try u img ?s0 = Inl p\<close> p Inl q by (simp add: toDataURL_settled_def)
    next
      case (Inr s2)
      from qr_catch_sent_kept(1) [OF s1 Inr] show ?thesis
        using Some \<open>qr_try u img ?s0 = Inl p\<close> p Inr
        by (simp add: toDataURL_settled_def after_qr_keeps)
    qed
  qed
qed

lemma timer_fired_sent_kept:
  assumes "sent (res s) = Some x"
  shows "sent (res (timer_fired ev t s)) = Some x"
proof (cases "t \<in> set (timers s)")
  case False
  with assms show ?thesis by (simp add: timer_fired_def)
next
  case True
  let ?s0 = "s\<lparr>timers := remove1 t (timers s)\<rparr>"
  have s0: "sent (res ?s0) = Some x" using assms by simp
  have "sent (res (run_callback ev (snd t) ?s0)) = Some x"
  proof (cases "snd t")
    case CleanupTimeout
    then show ?thesis using cleanup_timeout_keeps(5) [OF s0] by simp
  next
    case Reconnect
    then show ?thesis using s0 by simp
  next
    case DelayedWelcome
    then show ?thesis using s0 sendWelcomeMessages_untouched(1) [of ?s0 ev None]
      by (simp add: untouched_def)
  next
    case FinalCleanup
    then show ?thesis using s0 by (simp add: final_cleanup_keeps)
  qed
  then show ?thesis using True by (simp add: timer_fired_def)
qed

lemma settled_sent_kept: "res (sendMessage_settled ev i s) = res s"
  using settled_untouched(1) [of s ev i] by (simp add: untouched_def)

lemma sent_kept_step: "sent (res s) = Some x \<Longrightarrow> sent (res (step ev e s)) = Some x"
  by (cases e)
     (auto simp: on_connection_update_def after_qr_keeps settle_sent_kept timer_fired_sent_kept
        settled_sent_kept)

lemma sent_kept_run: "sent (res s) = Some x \<Longrightarrow> sent (res (run ev evs s)) = Some x"
  by (induction evs arbitrary: s) (simp_all add: sent_kept_step)

lemma qr_frame_run_waiting:
  "qrSent s \<Longrightarrow> \<forall>e \<in> set evs. \<not> is_settle e \<Longrightarrow> qr_frame s (run ev evs s)"
proof (induction evs arbitrary: s)
  case Nil
  then show ?case by (simp add: qr_frame_def)
next
  case (Cons e evs)
  from Cons.prems have f: "qr_frame s (step ev e s)"
    by (simp add: qr_frame_step_sent)
  with Cons.prems have "qrSent (step ev e s)" by (simp add: qr_frame_def)
  with Cons have "qr_frame (step ev e s) (run ev evs (step ev e s))" by simp
  with f show ?case by (simp add: qr_frame_def)
qed

lemma qr_frame_step_done:
  assumes "qrSent s" and "awaiting s = None"
  shows "qr_frame s (step ev e s)"
proof (cases "is_settle e")
  case False
  with assms show ?thesis by (simp add: qr_frame_step_sent)
next
  case True
  then obtain img where "e = ToDataURLSettled img" by (cases e) auto
  with assms show ?thesis by (simp add: settle_idle qr_frame_def)
qed

lemma qr_frame_run_done:
  "qrSent s \<Longrightarrow> awaiting s = None \<Longrightarrow> qr_frame s (run ev evs s)"
proof (induction evs arbitrary: s)
  case Nil
  then show ?case by (simp add: qr_frame_def)
next
  case (Cons e evs)
  from Cons.prems have f: "qr_frame s (step ev e s)"
    by (simp add: qr_frame_step_done)
  with Cons.prems have "qrSent (step ev e s)" "awaiting (step ev e s) = None"
    by (simp_all add: qr_frame_def)
  with Cons have "qr_frame (step ev e s) (run ev evs (step ev e s))" by simp
  with f show ?case by (simp add: qr_frame_def)
qed

lemma settle_rejected_open:
  assumes "awaiting s = Some u" and "\<not> headersSent (res s)"
  shows "sent (res (toDataURL_settled ev None s)) = Some (500, ErrorBody ''Failed to generate QR'')"
proof -
  let ?s1 = "emit (ConsoleError (QRGenerationFailed RenderRejected)) (s\<lparr>awaiting := None\<rparr>)"
  let ?s2 = "?s1\<lparr>res := \<lparr>statusCode = 500, sent = Some (500, ErrorBody ''Failed to generate QR'')\<rparr>,
                 trace := trace ?s1 @ [ResJson 500 (ErrorBody ''Failed to generate QR'')]\<rparr>"
  have o: "\<not> headersSent (res ?s1)" using assms(2) by simp
  have "toDataURL_settled ev None s = after_qr ev u ?s2"
    using assms(1) o
    by (simp add: toDataURL_settled_def qr_try_def qr_catch_def Let_def res_status_json_open [OF o])
  moreover have "sent (res ?s2) = Some (500, ErrorBody ''Failed to generate QR'')" by simp
  ultimately show ?thesis by (simp add: after_qr_keeps)
qed

text \<open>
  C10. The first pairing-code event sets the flag before the image is there (nothing
  else has happened when the handler suspends). Whatever other events come in between,
  when the rendering is rejected the response, if still open, is sent with status 500
  and stays that; no pairing code is ever answered in the rest of the session, and any
  later pairing-code event leaves the session as it is.
\<close>

theorem render_failure_suppresses_later_codes:
  assumes "\<not> qrSent s" and "truthy (qr u)" and "\<forall>e \<in> set evs1. \<not> is_settle e"
  shows "qrSent (step ev (ConnectionUpdate u) s) \<and>
         awaiting (step ev (ConnectionUpdate u) s) = Some u \<and>
         trace (step ev (ConnectionUpdate u) s) = trace s \<and>
         res (step ev (ConnectionUpdate u) s) = res s \<and>
         (\<not> headersSent (res (run ev (ConnectionUpdate u # evs1) s)) \<longrightarrow>
            sent (res (run ev (ConnectionUpdate u # evs1 @ ToDataURLSettled None # evs2) s)) =
              Some (500, ErrorBody ''Failed to generate QR'')) \<and>
         qr_calls (run ev (ConnectionUpdate u # evs1 @ ToDataURLSettled None # evs2) s) = qr_calls s \<and>
         step ev (ConnectionUpdate (pairing_code c))
              (run ev (ConnectionUpdate u # evs1 @ ToDataURLSettled None # evs2) s) =
            run ev (ConnectionUpdate u # evs1 @ ToDataURLSettled None # evs2) s"
proof -
  let ?s1 = "step ev (ConnectionUpdate u) s"
  let ?s2 = "run ev evs1 ?s1"
  let ?s3 = "toDataURL_settled ev None ?s2"
  let ?s4 = "run ev evs2 ?s3"
  have s1: "on_connection_update ev u s = s\<lparr>qrSent := True, awaiting := Some u\<rparr>"
    using assms(1,2) by (simp add: on_connection_update_def)
  have q1: "qrSent ?s1" "awaiting ?s1 = Some u" "qr_calls ?s1 = qr_calls s"
    by (simp_all add: s1)
  have f2: "qr_frame ?s1 ?s2"
    using q1(1) assms(3) by (rule qr_frame_run_waiting)
  then have q2: "qrSent ?s2" "awaiting ?s2 = Some u" "qr_calls ?s2 = qr_calls s"
    using q1 by (simp_all add: qr_frame_def)
  have q3: "qrSent ?s3" "awaiting ?s3 = None" "qr_calls ?s3 = qr_calls s"
    using settle_rejected [OF q2(2), of ev] q2 by simp_all
  have f4: "qr_frame ?s3 ?s4"
    using q3(1,2) by (rule qr_frame_run_done)
  then have q4: "qrSent ?s4" "qr_calls ?s4 = qr_calls s"
    using q3 by (simp_all add: qr_frame_def)
  have r: "run ev (ConnectionUpdate u # evs1 @ ToDataURLSettled None # evs2) s = ?s4"
    by (simp add: run_append)
  have r2: "run ev (ConnectionUpdate u # evs1) s = ?s2" by simp
  have resp: "\<not> headersSent (res ?s2) \<Longrightarrow> sent (res ?s4) = Some (500, ErrorBody ''Failed to generate QR'')"
    using settle_rejected_open [OF q2(2)] by (simp add: sent_kept_run)
  show ?thesis
    unfolding r r2 using q1(1,2) q4 resp pairing_code_suppressed [OF q4(1)]
    by (simp add: s1)
qed

text \<open>
  C4. In every run of a session \<^verbatim>\<open>res.json\<close> is called with a pairing code at most
  once. Once a pairing-code event has been handled, every later pairing-code event
  leaves the session unchanged. The first one, when its image arrives and the response
  is open, sends success, the image, the session id, the message and the instructions.
\<close>

theorem at_most_one_pairing_code_rendered:
  "qr_calls (run ev evs (route now suffix d)) \<le> 1 \<and>
   (c1 \<noteq> [] \<longrightarrow>
      step ev (ConnectionUpdate (pairing_code c2))
           (run ev (evs1 @ ConnectionUpdate (pairing_code c1) # evs2) s) =
         run ev (evs1 @ ConnectionUpdate (pairing_code c1) # evs2) s) \<and>
   (c1 \<noteq> [] \<and> \<not> qrSent s \<and> \<not> headersSent (res s) \<longrightarrow>
      sent (res (run ev [ConnectionUpdate (pairing_code c1), ToDataURLSettled (Some img)] s)) =
        Some (statusCode (res s), QrBody True img (sid s) qr_message qr_instructions))"
proof (intro conjI impI)
  have "one_code (run ev evs (route now suffix d))"
    by (rule one_code_run) (rule one_code_route)
  then show "qr_calls (run ev evs (route now suffix d)) \<le> 1"
    by (auto simp: one_code_def split: if_splits)
next
  assume c: "c1 \<noteq> []"
  have "qrSent (step ev (ConnectionUpdate (pairing_code c1)) (run ev evs1 s))"
    using c by (rule pairing_code_sets_flag)
  then have "qrSent (run ev (evs1 @ ConnectionUpdate (pairing_code c1) # evs2) s)"
    by (simp add: run_append qrSent_run)
  then show "step ev (ConnectionUpdate (pairing_code c2))
           (run ev (evs1 @ ConnectionUpdate (pairing_code c1) # evs2) s) =
         run ev (evs1 @ ConnectionUpdate (pairing_code c1) # evs2) s"
    by (rule pairing_code_suppressed)
next
  assume a: "c1 \<noteq> [] \<and> \<not> qrSent s \<and> \<not> headersSent (res s)"
  let ?s0 = "emit (ConsoleLog NewQRGenerated) (emit (ConsoleLog (QrTerminal c1)) (s\<lparr>qrSent := True, awaiting := None\<rparr>))"
  have o: "\<not> headersSent (res ?s0)" using a by simp
  show "sent (res (run ev [ConnectionUpdate (pairing_code c1), ToDataURLSettled (Some img)] s)) =
        Some (statusCode (res s), QrBody True img (sid s) qr_message qr_instructions)"
    using a
    by (simp add: on_connection_update_def pairing_code_def truthy_def toDataURL_settled_def qr_try_def
        res_json_def res_status_json_open [OF o] after_qr_def open_branch_def close_branch_def)
qed

section \<open>The 60 second timer after an early close\<close>

lemma early_close_state:
  "early_close_then_timeout =
     \<lparr>sid = sessionId 1700000000000 ''k3j9x2m1q'', qrSent = False, connectionSuccess = False,
      res = \<lparr>statusCode = 408,
             sent = Some (500, ErrorBody ''Connection failed or closed unexpectedly'')\<rparr>,
      awaiting = None, timers = [], dir = Present None, user_id = None, runs = [],
      trace =
        [ConsoleLog (ConnectionClosed (Some 428)),
         ResJson 500 (ErrorBody ''Connection failed or closed unexpectedly''),
         WsConnect,
         ResJson 408 (ErrorBody (''QR timeout '' @ endash @ '' no scan detected'')),
         Uncaught ERR_HTTP_HEADERS_SENT]\<rparr>"
  by (simp add: early_close_then_timeout_def sample_route closed_with_def sample_env_def
      on_connection_update_def after_qr_def open_branch_def close_branch_def truthy_def
      reason_or_unknown_def Let_def res_status_json_def json_def status_def headersSent_def
      emit_def setTimeout_def timer_fired_def cleanup_timeout_def)

text \<open>
  C1. The close handler and the pairing-code catch test \<^verbatim>\<open>res.headersSent\<close>; the timer
  callback does not. After an early close the response has gone out with status 500;
  the timer then calls \<^verbatim>\<open>res.status(408).json\<close> on it, which throws out of the
  callback. Two callbacks have written to the response.
\<close>

theorem response_written_twice_after_early_close:
  "filter (\<lambda>e. case e of ResJson c b \<Rightarrow> True | _ \<Rightarrow> False) (trace early_close_then_timeout) =
     [ResJson 500 (ErrorBody ''Connection failed or closed unexpectedly''),
      ResJson 408 (ErrorBody (''QR timeout '' @ endash @ '' no scan detected''))] \<and>
   last (trace early_close_then_timeout) = Uncaught ERR_HTTP_HEADERS_SENT \<and>
   sent (res early_close_then_timeout) =
     Some (500, ErrorBody ''Connection failed or closed unexpectedly'')"
  by (simp add: early_close_state)

text \<open>
  C6. In the same run the session never paired and never showed a code, yet the
  response is not the 408 one, and since the exception left the callback at line 138,
  the socket is not ended and the directory is still there.
\<close>

theorem timeout_cleanup_skipped_after_early_close:
  "\<not> connectionSuccess early_close_then_timeout \<and>
   \<not> qrSent early_close_then_timeout \<and>
   sent (res early_close_then_timeout) \<noteq>
     Some (408, ErrorBody (''QR timeout '' @ endash @ '' no scan detected'')) \<and>
   dir early_close_then_timeout = Present None \<and>
   SockEnd \<notin> set (trace early_close_then_timeout)"
  by (simp add: early_close_state)

text \<open>
  When the response is still open, or a code has been shown, the callback does remove
  the directory and end the socket, and answers 408 if no code has been shown.
\<close>

lemma cleanup_timeout_response_open:
  assumes "\<not> connectionSuccess s" and "qrSent s \<or> \<not> headersSent (res s)"
  shows "dir (cleanup_timeout s) = Absent"
    and "SockEnd \<in> set (trace (cleanup_timeout s))"
    and "\<not> qrSent s \<Longrightarrow>
         sent (res (cleanup_timeout s)) =
           Some (408, ErrorBody (''QR timeout '' @ endash @ '' no scan detected''))"
  using assms
  by (auto simp: cleanup_timeout_def Let_def res_status_json_open)

section \<open>Order of the onboarding messages\<close>

lemma sends_of_all: "sends_of i s = filter (\<lambda>e. invocation_of e = Some i) (all_sends s)"
  by (auto simp: sends_of_def all_sends_def intro: filter_cong)

lemma in_order_same:
  assumes "runs s' = runs s" and "all_sends s' = all_sends s" and "in_order s"
  shows "in_order s'"
proof -
  have "sends_of i s' = sends_of i s" for i
    by (simp add: sends_of_all assms(2))
  with assms(1,3) show ?thesis by (simp add: in_order_def)
qed

lemma sends_of_emit [simp]:
  "sends_of i (emit e s) = sends_of i s @ (if invocation_of e = Some i then [e] else [])"
  by (simp add: sends_of_def)

lemma sends_of_other [simp]:
  "sends_of i (s\<lparr>runs := rs\<rparr>) = sends_of i s" "sends_of i (s\<lparr>timers := ts\<rparr>) = sends_of i s"
  "sends_of i (s\<lparr>connectionSuccess := b\<rparr>) = sends_of i s"
  "sends_of i (setTimeout cb ms s) = sends_of i s"
  by (simp_all add: sends_of_def)

lemma sends_of_await [simp]:
  "sends_of i (await_sendMessage k j st s) =
     sends_of i s @ (if k = i then [SendMessage k j (awaited st)] else [])"
  by (simp add: sends_of_def)

lemma script_snoc: "script i j (ps @ [p]) = script i j ps @ [SendMessage i j p, Sent i j p]"
  by (simp add: script_def)

lemma script_Nil [simp]: "script i j [] = []"
  by (simp add: script_def)

lemma script_Cons: "script i j (p # ps) = SendMessage i j p # Sent i j p # script i j ps"
  by (simp add: script_def)

text \<open>Wherever an invocation stands, what it has done is an initial part of one script.\<close>

lemma follows_prefix:
  assumes "follows i v es"
  shows "\<exists>j co n. es = take n (script i j (plan_of co))"
proof (cases v)
  case Starting
  with assms have "es = take 0 (script i [] (plan_of None))" by simp
  then show ?thesis by blast
next
  case Returned
  with assms show ?thesis by simp
next
  case (Suspended j st)
  show ?thesis
  proof (cases st)
    case (AwaitCreds content)
    with assms Suspended have "es = take 1 (script i j (plan_of (Some content)))"
      by (simp add: plan_of_def doc_of_def script_Cons)
    then show ?thesis by blast
  next
    case AwaitImage
    with assms Suspended obtain co where
      e: "es = script i j (doc_of co) @ [SendMessage i j welcomeImage]" by auto
    have "es = take (2 * length (doc_of co) + 1) (script i j (plan_of co))"
      unfolding e by (cases co) (simp_all add: plan_of_def doc_of_def script_Cons)
    then show ?thesis by blast
  next
    case AwaitAudio
    with assms Suspended obtain co where
      e: "es = script i j (doc_of co @ [welcomeImage]) @ [SendMessage i j welcomeAudio]" by auto
    have "es = take (2 * length (doc_of co) + 3) (script i j (plan_of co))"
      unfolding e by (cases co) (simp_all add: plan_of_def doc_of_def script_Cons)
    then show ?thesis by blast
  next
    case AwaitFinal
    with assms Suspended obtain co where
      e: "es = script i j (doc_of co @ [welcomeImage, welcomeAudio]) @ [SendMessage i j finalMessage]"
      by auto
    have "es = take (2 * length (doc_of co) + 5) (script i j (plan_of co))"
      unfolding e by (cases co) (simp_all add: plan_of_def doc_of_def script_Cons)
    then show ?thesis by blast
  qed
qed

lemma follows_first:
  "follows i (Suspended j (first_stage d)) [SendMessage i j (awaited (first_stage d))]"
proof (cases "first_stage d")
  case (AwaitCreds content)
  then show ?thesis by simp
next
  case AwaitImage
  have "[SendMessage i j welcomeImage] = script i j (doc_of None) @ [SendMessage i j welcomeImage]"
    by (simp add: doc_of_def)
  with AwaitImage show ?thesis by (auto simp del: script_Nil)
next
  case AwaitAudio
  then show ?thesis by (simp add: first_stage_def split: dir_state.splits option.splits)
next
  case AwaitFinal
  then show ?thesis by (simp add: first_stage_def split: dir_state.splits option.splits)
qed

lemma in_order_start:
  assumes "in_order s"
  shows "in_order (sendWelcomeMessages ev fb s)"
proof (cases "\<exists>j. (if truthy fb then fb else resolveJid ev s) = Some j \<and> j \<noteq> []")
  case False
  then have "sendWelcomeMessages ev fb s = emit (ConsoleLog NoUserJidFound) s"
    by (auto simp: sendWelcomeMessages_def split: option.splits)
  then show ?thesis using assms by (simp add: in_order_def)
next
  case True
  then obtain j where j: "(if truthy fb then fb else resolveJid ev s) = Some j" "j \<noteq> []"
    by blast
  let ?n = "length (runs s)"
  let ?st = "first_stage (dir s)"
  let ?s' = "s\<lparr>runs := runs s @ [Suspended j ?st], trace := trace s @ [SendMessage ?n j (awaited ?st)]\<rparr>"
  have eq: "sendWelcomeMessages ev fb s = ?s'"
    using j by (simp add: sendWelcomeMessages_def await_sendMessage_def emit_def)
  have so: "sends_of i ?s' = sends_of i s @ (if i = ?n then [SendMessage ?n j (awaited ?st)] else [])" for i
    by (auto simp: sends_of_def)
  have "if i < length (runs ?s') then follows i (runs ?s' ! i) (sends_of i ?s') else sends_of i ?s' = []" for i
  proof -
    from assms have a: "if i < ?n then follows i (runs s ! i) (sends_of i s) else sends_of i s = []"
      by (simp add: in_order_def)
    consider "i < ?n" | "i = ?n" | "?n < i" by linarith
    then show ?thesis
    proof cases
      case 1
      with a show ?thesis by (simp add: so nth_append)
    next
      case 2
      with a have "sends_of i s = []" by simp
      with 2 show ?thesis by (simp add: so follows_first)
    next
      case 3
      with a show ?thesis by (simp add: so)
    qed
  qed
  then show ?thesis unfolding eq in_order_def by blast
qed

lemma in_order_settled:
  assumes "in_order s"
  shows "in_order (sendMessage_settled ev k s)"
proof (cases "k < length (runs s) \<and> (\<exists>j st. runs s ! k = Suspended j st)")
  case False
  then have "sendMessage_settled ev k s = s"
    by (cases "runs s ! k") (auto simp: sendMessage_settled_def)
  with assms show ?thesis by simp
next
  case True
  then obtain j st where k: "k < length (runs s)" and r: "runs s ! k = Suspended j st" by blast
  from assms k r have fk: "follows k (Suspended j st) (sends_of k s)"
    by (auto simp: in_order_def split: if_splits dest: spec [of _ k])
  have others: "if i < length (runs s) then follows i (runs s ! i) (sends_of i s) else sends_of i s = []" for i
    using assms by (simp add: in_order_def)
  show ?thesis
  proof (cases "sendMessage_throws ev j (awaited st)")
    case True
    let ?s' = "emit (ConsoleError (FailedToSendWelcome SendRejected)) (s\<lparr>runs := (runs s)[k := Returned]\<rparr>)"
    have eq: "sendMessage_settled ev k s = ?s'" using k r True by (rule settled_rejected)
    have "if i < length (runs ?s') then follows i (runs ?s' ! i) (sends_of i ?s') else sends_of i ?s' = []" for i
    proof (cases "i = k")
      case True
      from follows_prefix [OF fk] have "follows k Returned (sends_of k s)" by simp
      with True k show ?thesis by simp
    next
      case False
      with others [of i] show ?thesis by simp
    qed
    then show ?thesis unfolding eq in_order_def by blast
  next
    case False
    let ?s' = "after_send k j st (emit (Sent k j (awaited st)) s)"
    have eq: "sendMessage_settled ev k s = ?s'" using k r False by (rule settled_fulfilled)
    have len: "length (runs ?s') = length (runs s)" by (cases st) simp_all
    have oth: "i \<noteq> k \<Longrightarrow> runs ?s' ! i = runs s ! i \<and> sends_of i ?s' = sends_of i s" for i
      by (cases st) simp_all
    have me: "follows k (runs ?s' ! k) (sends_of k ?s')"
    proof (cases st)
      case (AwaitCreds content)
      from fk AwaitCreds have e: "sends_of k s = [SendMessage k j (credsDocument content)]" by simp
      have "[SendMessage k j (credsDocument content), Sent k j (credsDocument content),
             SendMessage k j welcomeImage] =
            script k j (doc_of (Some content)) @ [SendMessage k j welcomeImage]"
        by (simp add: doc_of_def script_Cons)
      then show ?thesis using AwaitCreds k e by auto
    next
      case AwaitImage
      from fk AwaitImage obtain co where
        e: "sends_of k s = script k j (doc_of co) @ [SendMessage k j welcomeImage]" by auto
      have "script k j (doc_of co) @ [SendMessage k j welcomeImage, Sent k j welcomeImage,
              SendMessage k j welcomeAudio] =
            script k j (doc_of co @ [welcomeImage]) @ [SendMessage k j welcomeAudio]"
        by (simp add: script_snoc)
      then show ?thesis using AwaitImage k e by auto
    next
      case AwaitAudio
      from fk AwaitAudio obtain co where
        e: "sends_of k s = script k j (doc_of co @ [welcomeImage]) @ [SendMessage k j welcomeAudio]"
        by auto
      have "script k j (doc_of co @ [welcomeImage]) @ [SendMessage k j welcomeAudio,
              Sent k j welcomeAudio, SendMessage k j finalMessage] =
            script k j (doc_of co @ [welcomeImage, welcomeAudio]) @ [SendMessage k j finalMessage]"
        using script_snoc [of k j "doc_of co @ [welcomeImage]" welcomeAudio] by simp
      then show ?thesis using AwaitAudio k e by auto
    next
      case AwaitFinal
      from fk AwaitFinal obtain co where
        e: "sends_of k s = script k j (doc_of co @ [welcomeImage, welcomeAudio]) @
                            [SendMessage k j finalMessage]"
        by auto
      have "script k j (doc_of co @ [welcomeImage, welcomeAudio]) @
              [SendMessage k j finalMessage, Sent k j finalMessage] =
            take (length (script k j (plan_of co))) (script k j (plan_of co))"
        using script_snoc [of k j "doc_of co @ [welcomeImage, welcomeAudio]" finalMessage]
        by (simp add: plan_of_def)
      then have "follows k Returned
          (script k j (doc_of co @ [welcomeImage, welcomeAudio]) @
              [SendMessage k j finalMessage, Sent k j finalMessage])"
        unfolding follows.simps by blast
      then show ?thesis using AwaitFinal k e by simp
    qed
    have "if i < length (runs ?s') then follows i (runs ?s' ! i) (sends_of i ?s') else sends_of i ?s' = []" for i
    proof (cases "i = k")
      case True
      with me k len show ?thesis by simp
    next
      case False
      with others [of i] oth [OF False] len show ?thesis by simp
    qed
    then show ?thesis unfolding eq in_order_def by blast
  qed
qed

lemma in_order_after_qr:
  assumes "in_order s"
  shows "in_order (after_qr ev u s)"
proof -
  let ?s1 = "emit (ConsoleLog Connected) (s\<lparr>connectionSuccess := True\<rparr>)"
  have s1: "in_order ?s1"
    by (rule in_order_same [OF _ _ assms]) simp_all
  have "in_order (setTimeout DelayedWelcome 5000 (emit (ConsoleLog JidNotFoundDelaying) ?s1))"
    by (rule in_order_same [OF _ _ s1]) simp_all
  moreover have "in_order (sendWelcomeMessages ev fb ?s1)" for fb
    using s1 by (rule in_order_start)
  ultimately have o: "in_order (open_branch ev u s)"
    using assms by (simp add: open_branch_def Let_def)
  show ?thesis
    unfolding after_qr_def by (rule in_order_same [OF _ _ o]) (simp_all add: close_branch_keeps)
qed

lemma in_order_toDataURL_settled:
  assumes "in_order s"
  shows "in_order (toDataURL_settled ev img s)"
proof (cases "awaiting s")
  case None
  with assms show ?thesis by (simp add: settle_idle)
next
  case (Some u)
  let ?s0 = "s\<lparr>awaiting := None\<rparr>"
  have p0: "in_order ?s0" by (rule in_order_same [OF _ _ assms]) simp_all
  show ?thesis
  proof (cases "qr_try u img ?s0")
    case (Inr s1)
    have "in_order s1"
      by (rule in_order_same [OF _ _ p0]) (simp_all add: qr_try_keeps(1) [OF Inr])
    then show ?thesis using Some Inr by (simp add: toDataURL_settled_def in_order_after_qr)
  next
    case (Inl p)
    obtain e s1 where p: "p = (e, s1)" by (cases p)
    have p1: "in_order s1"
      by (rule in_order_same [OF _ _ p0]) (simp_all add: qr_try_keeps(2) [OF Inl [unfolded p]])
    show ?thesis
    proof (cases "qr_catch e s1")
      case (Inl q)
      obtain e' s2 where q: "q = (e', s2)" by (cases q)
      have "in_order s2"
        by (rule in_order_same [OF _ _ p1]) (simp_all add: qr_catch_keeps(2) [OF Inl [unfolded q]])
      then have "in_order (emit (Unhandled e') s2)"
        by (rule in_order_same [rotated 2]) simp_all
      then show ?thesis using Some \<open>qr_try u img ?s0 = Inl p\<close> p Inl q
        by (simp add: toDataURL_settled_def)
    next
      case (Inr s2)
      have "in_order s2"
        by (rule in_order_same [OF _ _ p1]) (simp_all add: qr_catch_keeps(1) [OF Inr])
      then show ?thesis using Some \<open>qr_try u img ?s0 = Inl p\<close> p Inr
        by (simp add: toDataURL_settled_def in_order_after_qr)
    qed
  qed
qed

lemma in_order_timer_fired:
  assumes "in_order s"
  shows "in_order (timer_fired ev t s)"
proof (cases "t \<in> set (timers s)")
  case False
  with assms show ?thesis by (simp add: timer_fired_def)
next
  case True
  let ?s0 = "s\<lparr>timers := remove1 t (timers s)\<rparr>"
  have p0: "in_order ?s0" by (rule in_order_same [OF _ _ assms]) simp_all
  have "in_order (run_callback ev (snd t) ?s0)"
  proof (cases "snd t")
    case CleanupTimeout
    have "in_order (cleanup_timeout ?s0)"
      by (rule in_order_same [OF _ _ p0]) (simp_all add: cleanup_timeout_keeps)
    then show ?thesis using CleanupTimeout by simp
  next
    case Reconnect
    have "in_order (emit WsConnect ?s0)"
      by (rule in_order_same [OF _ _ p0]) simp_all
    then show ?thesis using Reconnect by simp
  next
    case DelayedWelcome
    then show ?thesis using p0 by (simp add: in_order_start)
  next
    case FinalCleanup
    have "in_order (final_cleanup ?s0)"
      by (rule in_order_same [OF _ _ p0]) (simp_all add: final_cleanup_keeps)
    then show ?thesis using FinalCleanup by simp
  qed
  then show ?thesis using True by (simp add: timer_fired_def)
qed

lemma in_order_step: "in_order s \<Longrightarrow> in_order (step ev e s)"
proof (cases e)
  case (ConnectionUpdate u)
  assume a: "in_order s"
  have "in_order (s\<lparr>qrSent := True, awaiting := Some u\<rparr>)"
    by (rule in_order_same [OF _ _ a]) (simp_all add: all_sends_def)
  then show ?thesis using ConnectionUpdate a
    by (simp add: on_connection_update_def in_order_after_qr)
next
  case (ToDataURLSettled img)
  assume "in_order s"
  then show ?thesis using ToDataURLSettled by (simp add: in_order_toDataURL_settled)
next
  case (TimerFired t)
  assume "in_order s"
  then show ?thesis using TimerFired by (simp add: in_order_timer_fired)
next
  case (SendSettled i)
  assume "in_order s"
  then show ?thesis using SendSettled by (simp add: in_order_settled)
next
  case (UserKnown i)
  assume a: "in_order s"
  have "in_order (s\<lparr>user_id := Some i\<rparr>)"
    by (rule in_order_same [OF _ _ a]) simp_all
  then show ?thesis using UserKnown by simp
next
  case (CredsUpdate c)
  assume a: "in_order s"
  have "in_order (s\<lparr>dir := Present (Some c)\<rparr>)"
    by (rule in_order_same [OF _ _ a]) simp_all
  then show ?thesis using CredsUpdate a by simp
qed

lemma in_order_run: "in_order s \<Longrightarrow> in_order (run ev evs s)"
  by (induction evs arbitrary: s) (simp_all add: in_order_step)

lemma in_order_route: "in_order (route now suffix d)"
  by (simp add: in_order_def route_def sends_of_def)

lemma settled_fulfilled_fields:
  assumes "i < length (runs t)" and "runs t ! i = Suspended j st"
    and "\<not> sendMessage_throws ev j (awaited st)"
  shows "trace (sendMessage_settled ev i t) =
           trace t @ Sent i j (awaited st) #
             (case st of
                AwaitCreds content \<Rightarrow>
                  [ConsoleLog (SessionFileSent (credsPath (sessionDir (sid t)))),
                   SendMessage i j welcomeImage]
              | AwaitImage \<Rightarrow> [SendMessage i j welcomeAudio]
              | AwaitAudio \<Rightarrow> [SendMessage i j finalMessage]
              | AwaitFinal \<Rightarrow> [ConsoleLog AllWelcomeSent])"
    and "runs (sendMessage_settled ev i t) =
           (runs t)[i := (case st of
                            AwaitCreds content \<Rightarrow> Suspended j AwaitImage
                          | AwaitImage \<Rightarrow> Suspended j AwaitAudio
                          | AwaitAudio \<Rightarrow> Suspended j AwaitFinal
                          | AwaitFinal \<Rightarrow> Returned)]"
  unfolding settled_fulfilled [OF assms] by (cases st; simp)+

lemma first_stage_cases:
  "(\<exists>content. dir s = Present (Some content) \<and> first_stage (dir s) = AwaitCreds content) \<or>
   ((\<forall>content. dir s \<noteq> Present (Some content)) \<and> first_stage (dir s) = AwaitImage)"
  by (auto simp: first_stage_def split: dir_state.splits option.splits)

lemma uninterrupted_all_ok:
  assumes "j \<noteq> []" and "\<forall>p \<in> set (planned s). \<not> sendMessage_throws ev j p"
  shows "trace (sendWelcomeMessages_uninterrupted ev (Some j) s) =
     trace s @
       (case dir s of
          Present (Some content) \<Rightarrow>
            [SendMessage (length (runs s)) j (credsDocument content),
             Sent (length (runs s)) j (credsDocument content),
             ConsoleLog (SessionFileSent (credsPath (sessionDir (sid s))))]
        | _ \<Rightarrow> []) @
       [SendMessage (length (runs s)) j welcomeImage, Sent (length (runs s)) j welcomeImage,
        SendMessage (length (runs s)) j welcomeAudio, Sent (length (runs s)) j welcomeAudio,
        SendMessage (length (runs s)) j finalMessage, Sent (length (runs s)) j finalMessage,
        ConsoleLog AllWelcomeSent]"
proof -
  have four: "(4::nat) \<le> 4" by simp
  note tr = started_drain(1) [OF assms(1) four, of ev s, folded uninterrupted_funpow]
  from first_stage_cases [of s] show ?thesis
  proof (elim disjE exE conjE)
    fix content
    assume d: "dir s = Present (Some content)" and f: "first_stage (dir s) = AwaitCreds content"
    from assms(2) have ok: "\<not> sendMessage_throws ev j (credsDocument content)"
      "\<not> sendMessage_throws ev j welcomeImage" "\<not> sendMessage_throws ev j welcomeAudio"
      "\<not> sendMessage_throws ev j finalMessage"
      by (simp_all add: planned_stages f)
    show ?thesis unfolding tr f using ok by (simp add: d)
  next
    assume d: "\<forall>content. dir s \<noteq> Present (Some content)" and f: "first_stage (dir s) = AwaitImage"
    from assms(2) have ok:
      "\<not> sendMessage_throws ev j welcomeImage" "\<not> sendMessage_throws ev j welcomeAudio"
      "\<not> sendMessage_throws ev j finalMessage"
      by (simp_all add: planned_stages f)
    have c: "(case dir s of Present (Some content) \<Rightarrow> g content | _ \<Rightarrow> []) = []"
      for g :: "string \<Rightarrow> effect list"
      using d by (simp split: dir_state.splits option.splits)
    show ?thesis unfolding tr f c using ok by simp
  qed
qed

text \<open>
  C8. A call with an identity makes the first send and nothing else: the credentials
  document if \<^verbatim>\<open>creds.json\<close> exists, the welcome image if not (no error). In any state,
  whatever has run in between, a fulfilled send is followed by the call of the next one,
  in the order document, image, audio, closing text, and after the last the function
  logs and returns; so no send is called before the one before it is fulfilled. In
  every run of a session and for every invocation, its calls and fulfilments, taken out
  of the trace, are an initial part of: call and fulfilment of the document (if any),
  then of the image, of the audio, of the closing text, all to one identity. Left alone,
  the invocation does exactly that list. Without an identity nothing is called. In
  every run of a session, a send has been called only if the connection has opened.
\<close>

theorem onboarding_sends_in_order:
  "(j \<noteq> [] \<longrightarrow>
      sendWelcomeMessages ev (Some j) s =
        s\<lparr>runs := runs s @ [Suspended j (first_stage (dir s))],
          trace := trace s @
            [SendMessage (length (runs s)) j
               (case dir s of Present (Some content) \<Rightarrow> credsDocument content
                | _ \<Rightarrow> welcomeImage)]\<rparr>) \<and>
   (i < length (runs t) \<and> runs t ! i = Suspended j st \<and>
    \<not> sendMessage_throws ev j (awaited st) \<longrightarrow>
      trace (step ev (SendSettled i) t) =
        trace t @ Sent i j (awaited st) #
          (case st of
             AwaitCreds content \<Rightarrow>
               [ConsoleLog (SessionFileSent (credsPath (sessionDir (sid t)))),
                SendMessage i j welcomeImage]
           | AwaitImage \<Rightarrow> [SendMessage i j welcomeAudio]
           | AwaitAudio \<Rightarrow> [SendMessage i j finalMessage]
           | AwaitFinal \<Rightarrow> [ConsoleLog AllWelcomeSent]) \<and>
      runs (step ev (SendSettled i) t) =
        (runs t)[i := (case st of
                         AwaitCreds content \<Rightarrow> Suspended j AwaitImage
                       | AwaitImage \<Rightarrow> Suspended j AwaitAudio
                       | AwaitAudio \<Rightarrow> Suspended j AwaitFinal
                       | AwaitFinal \<Rightarrow> Returned)]) \<and>
   (\<exists>k co n. sends_of i (run ev evs (route now suffix d)) =
      take n (script i k (doc_of co @ [welcomeImage, welcomeAudio, finalMessage]))) \<and>
   (j \<noteq> [] \<and> (\<forall>p \<in> set (planned s). \<not> sendMessage_throws ev j p) \<longrightarrow>
      trace (sendWelcomeMessages_uninterrupted ev (Some j) s) =
        trace s @
        (case dir s of
           Present (Some content) \<Rightarrow>
             [SendMessage (length (runs s)) j (credsDocument content),
              Sent (length (runs s)) j (credsDocument content),
              ConsoleLog (SessionFileSent (credsPath (sessionDir (sid s))))]
         | _ \<Rightarrow> []) @
        [SendMessage (length (runs s)) j welcomeImage, Sent (length (runs s)) j welcomeImage,
         SendMessage (length (runs s)) j welcomeAudio, Sent (length (runs s)) j welcomeAudio,
         SendMessage (length (runs s)) j finalMessage, Sent (length (runs s)) j finalMessage,
         ConsoleLog AllWelcomeSent]) \<and>
   (\<not> truthy fb \<and> \<not> truthy (resolveJid ev s) \<longrightarrow>
      sendWelcomeMessages ev fb s = emit (ConsoleLog NoUserJidFound) s) \<and>
   (all_sends (run ev evs (route now suffix d)) \<noteq> [] \<longrightarrow>
      connectionSuccess (run ev evs (route now suffix d)))"
proof (intro conjI impI)
  assume j: "j \<noteq> []"
  have fs: "awaited (first_stage (dir s)) =
      (case dir s of Present (Some content) \<Rightarrow> credsDocument content | _ \<Rightarrow> welcomeImage)"
    by (simp add: first_stage_def split: dir_state.splits option.splits)
  show "sendWelcomeMessages ev (Some j) s =
        s\<lparr>runs := runs s @ [Suspended j (first_stage (dir s))],
          trace := trace s @
            [SendMessage (length (runs s)) j
               (case dir s of Present (Some content) \<Rightarrow> credsDocument content
                | _ \<Rightarrow> welcomeImage)]\<rparr>"
    unfolding sendWelcomeMessages_known [OF j] fs ..
next
  assume a: "i < length (runs t) \<and> runs t ! i = Suspended j st \<and>
    \<not> sendMessage_throws ev j (awaited st)"
  then have h: "i < length (runs t)" "runs t ! i = Suspended j st"
    "\<not> sendMessage_throws ev j (awaited st)" by simp_all
  show "trace (step ev (SendSettled i) t) =
        trace t @ Sent i j (awaited st) #
          (case st of
             AwaitCreds content \<Rightarrow>
               [ConsoleLog (SessionFileSent (credsPath (sessionDir (sid t)))),
                SendMessage i j welcomeImage]
           | AwaitImage \<Rightarrow> [SendMessage i j welcomeAudio]
           | AwaitAudio \<Rightarrow> [SendMessage i j finalMessage]
           | AwaitFinal \<Rightarrow> [ConsoleLog AllWelcomeSent])"
    using settled_fulfilled_fields(1) [OF h] by simp
  show "runs (step ev (SendSettled i) t) =
        (runs t)[i := (case st of
                         AwaitCreds content \<Rightarrow> Suspended j AwaitImage
                       | AwaitImage \<Rightarrow> Suspended j AwaitAudio
                       | AwaitAudio \<Rightarrow> Suspended j AwaitFinal
                       | AwaitFinal \<Rightarrow> Returned)]"
    using settled_fulfilled_fields(2) [OF h] by simp
next
  let ?s = "run ev evs (route now suffix d)"
  have io: "in_order ?s" by (rule in_order_run) (rule in_order_route)
  show "\<exists>k co n. sends_of i ?s =
      take n (script i k (doc_of co @ [welcomeImage, welcomeAudio, finalMessage]))"
  proof (cases "i < length (runs ?s)")
    case True
    with io have "follows i (runs ?s ! i) (sends_of i ?s)"
      by (simp add: in_order_def)
    from follows_prefix [OF this] show ?thesis by (simp add: plan_of_def)
  next
    case False
    with io have "sends_of i ?s = take 0 (script i [] (doc_of None @ [welcomeImage, welcomeAudio, finalMessage]))"
      by (simp add: in_order_def)
    then show ?thesis by blast
  qed
next
  assume "j \<noteq> [] \<and> (\<forall>p \<in> set (planned s). \<not> sendMessage_throws ev j p)"
  then have j: "j \<noteq> []" and ok: "\<forall>p \<in> set (planned s). \<not> sendMessage_throws ev j p"
    by simp_all
  from uninterrupted_all_ok [OF j ok]
  show "trace (sendWelcomeMessages_uninterrupted ev (Some j) s) =
        trace s @
        (case dir s of
           Present (Some content) \<Rightarrow>
             [SendMessage (length (runs s)) j (credsDocument content),
              Sent (length (runs s)) j (credsDocument content),
              ConsoleLog (SessionFileSent (credsPath (sessionDir (sid s))))]
         | _ \<Rightarrow> []) @
        [SendMessage (length (runs s)) j welcomeImage, Sent (length (runs s)) j welcomeImage,
         SendMessage (length (runs s)) j welcomeAudio, Sent (length (runs s)) j welcomeAudio,
         SendMessage (length (runs s)) j finalMessage, Sent (length (runs s)) j finalMessage,
         ConsoleLog AllWelcomeSent]" .
next
  assume "\<not> truthy fb \<and> \<not> truthy (resolveJid ev s)"
  then show "sendWelcomeMessages ev fb s = emit (ConsoleLog NoUserJidFound) s"
    by (simp add: sendWelcomeMessages_unknown)
next
  assume m: "all_sends (run ev evs (route now suffix d)) \<noteq> []"
  have "paired_only (run ev evs (route now suffix d))"
    by (rule paired_only_run) (rule paired_only_route)
  with m show "connectionSuccess (run ev evs (route now suffix d))"
    by (simp add: paired_only_def)
qed

lemma sample_with_creds: "with_creds = fresh_session\<lparr>dir := Present (Some ''{}'')\<rparr>"
  by (simp add: with_creds_def sample_route)

lemmas sample_defs =
  sample_route opened_def closed_with_def sample_env_def
  on_connection_update_def after_qr_def open_branch_def close_branch_def truthy_def
  resolveJid_def sendWelcomeMessages_def first_stage_def sendMessage_settled_def
  await_sendMessage_def reason_or_unknown_def removeSession_def res_status_json_def
  json_def status_def headersSent_def Let_def emit_def setTimeout_def

lemma sample_paired:
  "trace paired_sample =
     [ConsoleLog Connected,
      SendMessage 0 jid0 (credsDocument ''{}''), Sent 0 jid0 (credsDocument ''{}''),
      ConsoleLog (SessionFileSent (credsPath (sessionDir (sessionId 1700000000000 ''k3j9x2m1q'')))),
      SendMessage 0 jid0 welcomeImage, Sent 0 jid0 welcomeImage,
      SendMessage 0 jid0 welcomeAudio, Sent 0 jid0 welcomeAudio,
      SendMessage 0 jid0 finalMessage, Sent 0 jid0 finalMessage,
      ConsoleLog AllWelcomeSent]"
  by (simp add: paired_sample_def sample_defs jid0_def)

lemma sample_closed_while_sending:
  "trace closed_while_sending =
     [ConsoleLog Connected,
      SendMessage 0 jid0 (credsDocument ''{}''),
      ConsoleLog (ConnectionClosed (Some 401)),
      ConsoleLog LoggedOutDeleting,
      RmSync (sessionDir (sessionId 1700000000000 ''k3j9x2m1q'')),
      ConsoleLog (SessionFolderRemoved (sessionDir (sessionId 1700000000000 ''k3j9x2m1q''))),
      Sent 0 jid0 (credsDocument ''{}''),
      ConsoleLog (SessionFileSent (credsPath (sessionDir (sessionId 1700000000000 ''k3j9x2m1q'')))),
      SendMessage 0 jid0 welcomeImage, Sent 0 jid0 welcomeImage,
      SendMessage 0 jid0 welcomeAudio, Sent 0 jid0 welcomeAudio,
      SendMessage 0 jid0 finalMessage, Sent 0 jid0 finalMessage,
      ConsoleLog AllWelcomeSent]"
  by (simp add: closed_while_sending_def sample_defs jid0_def)

text \<open>
  The call with and without \<^verbatim>\<open>creds.json\<close> and identity, a paired session whose sends
  are all fulfilled, and one that is logged out while its first send is in flight.
\<close>

theorem onboarding_sends_in_order_witness:
  "trace (sendWelcomeMessages sample_env (Some jid0) with_creds) =
     [SendMessage 0 jid0 (credsDocument ''{}'')] \<and>
   trace (sendWelcomeMessages sample_env (Some jid0) fresh_session) =
     [SendMessage 0 jid0 welcomeImage] \<and>
   trace (sendWelcomeMessages_uninterrupted sample_env (Some jid0) with_creds) =
     [SendMessage 0 jid0 (credsDocument ''{}''), Sent 0 jid0 (credsDocument ''{}''),
      ConsoleLog (SessionFileSent (credsPath (sessionDir (sessionId 1700000000000 ''k3j9x2m1q'')))),
      SendMessage 0 jid0 welcomeImage, Sent 0 jid0 welcomeImage,
      SendMessage 0 jid0 welcomeAudio, Sent 0 jid0 welcomeAudio,
      SendMessage 0 jid0 finalMessage, Sent 0 jid0 finalMessage,
      ConsoleLog AllWelcomeSent] \<and>
   trace (sendWelcomeMessages sample_env None fresh_session) = [ConsoleLog NoUserJidFound] \<and>
   sent_messages paired_sample =
     [(jid0, credsDocument ''{}''), (jid0, welcomeImage), (jid0, welcomeAudio), (jid0, finalMessage)] \<and>
   connectionSuccess paired_sample \<and>
   trace closed_while_sending =
     [ConsoleLog Connected,
      SendMessage 0 jid0 (credsDocument ''{}''),
      ConsoleLog (ConnectionClosed (Some 401)),
      ConsoleLog LoggedOutDeleting,
      RmSync (sessionDir (sessionId 1700000000000 ''k3j9x2m1q'')),
      ConsoleLog (SessionFolderRemoved (sessionDir (sessionId 1700000000000 ''k3j9x2m1q''))),
      Sent 0 jid0 (credsDocument ''{}''),
      ConsoleLog (SessionFileSent (credsPath (sessionDir (sessionId 1700000000000 ''k3j9x2m1q'')))),
      SendMessage 0 jid0 welcomeImage, Sent 0 jid0 welcomeImage,
      SendMessage 0 jid0 welcomeAudio, Sent 0 jid0 welcomeAudio,
      SendMessage 0 jid0 finalMessage, Sent 0 jid0 finalMessage,
      ConsoleLog AllWelcomeSent] \<and>
   sends_of 0 closed_while_sending =
     script 0 jid0 [credsDocument ''{}'', welcomeImage, welcomeAudio, finalMessage] \<and>
   connectionSuccess closed_while_sending"
proof -
  have j: "jid0 \<noteq> []" by (simp add: jid0_def)
  have wc: "runs with_creds = []" "trace with_creds = []" "dir with_creds = Present (Some ''{}'')"
    "sid with_creds = sessionId 1700000000000 ''k3j9x2m1q''"
    by (simp_all add: sample_with_creds sample_route)
  have fr: "runs fresh_session = []" "trace fresh_session = []" "dir fresh_session = Present None"
    by (simp_all add: sample_route)
  have ok: "\<forall>p \<in> set (planned with_creds). \<not> sendMessage_throws sample_env jid0 p"
    by (simp add: sample_env_def)
  have u: "\<not> truthy None \<and> \<not> truthy (resolveJid sample_env fresh_session)"
    by (simp add: truthy_def resolveJid_def sample_route)
  have eq1: "run sample_env
       [CredsUpdate ''{}'', UserKnown jid0, ConnectionUpdate opened,
        SendSettled 0, SendSettled 0, SendSettled 0, SendSettled 0]
       (route 1700000000000 ''k3j9x2m1q'' Absent) = paired_sample"
    by (simp only: paired_sample_def fresh_session_def)
  have eq2: "run sample_env
       [CredsUpdate ''{}'', UserKnown jid0, ConnectionUpdate opened,
        ConnectionUpdate (closed_with (Some 401)),
        SendSettled 0, SendSettled 0, SendSettled 0, SendSettled 0]
       (route 1700000000000 ''k3j9x2m1q'' Absent) = closed_while_sending"
    by (simp only: closed_while_sending_def fresh_session_def)
  have a1: "all_sends paired_sample \<noteq> []"
    by (simp add: all_sends_def sample_paired)
  have a2: "all_sends closed_while_sending \<noteq> []"
    by (simp add: all_sends_def sample_closed_while_sending)
  note t1 = onboarding_sends_in_order
      [of jid0 sample_env with_creds 0 with_creds AwaitImage
          "[CredsUpdate ''{}'', UserKnown jid0, ConnectionUpdate opened,
            SendSettled 0, SendSettled 0, SendSettled 0, SendSettled 0]"
          1700000000000 "''k3j9x2m1q''" Absent None, unfolded eq1]
  note t2 = onboarding_sends_in_order
      [of jid0 sample_env fresh_session 0 fresh_session AwaitImage
          "[CredsUpdate ''{}'', UserKnown jid0, ConnectionUpdate opened,
            ConnectionUpdate (closed_with (Some 401)),
            SendSettled 0, SendSettled 0, SendSettled 0, SendSettled 0]"
          1700000000000 "''k3j9x2m1q''" Absent None, unfolded eq2]
  from t1 j have c1: "sendWelcomeMessages sample_env (Some jid0) with_creds =
        with_creds\<lparr>runs := runs with_creds @ [Suspended jid0 (first_stage (dir with_creds))],
          trace := trace with_creds @
            [SendMessage (length (runs with_creds)) jid0
               (case dir with_creds of Present (Some content) \<Rightarrow> credsDocument content
                | _ \<Rightarrow> welcomeImage)]\<rparr>"
    by blast
  from t2 j have c2: "sendWelcomeMessages sample_env (Some jid0) fresh_session =
        fresh_session\<lparr>runs := runs fresh_session @ [Suspended jid0 (first_stage (dir fresh_session))],
          trace := trace fresh_session @
            [SendMessage (length (runs fresh_session)) jid0
               (case dir fresh_session of Present (Some content) \<Rightarrow> credsDocument content
                | _ \<Rightarrow> welcomeImage)]\<rparr>"
    by blast
  from t1 j ok have c3: "trace (sendWelcomeMessages_uninterrupted sample_env (Some jid0) with_creds) =
        trace with_creds @
        (case dir with_creds of
           Present (Some content) \<Rightarrow>
             [SendMessage (length (runs with_creds)) jid0 (credsDocument content),
              Sent (length (runs with_creds)) jid0 (credsDocument content),
              ConsoleLog (SessionFileSent (credsPath (sessionDir (sid with_creds))))]
         | _ \<Rightarrow> []) @
        [SendMessage (length (runs with_creds)) jid0 welcomeImage,
         Sent (length (runs with_creds)) jid0 welcomeImage,
         SendMessage (length (runs with_creds)) jid0 welcomeAudio,
         Sent (length (runs with_creds)) jid0 welcomeAudio,
         SendMessage (length (runs with_creds)) jid0 finalMessage,
         Sent (length (runs with_creds)) jid0 finalMessage,
         ConsoleLog AllWelcomeSent]"
    by blast
  from t2 u have c4: "sendWelcomeMessages sample_env None fresh_session =
      emit (ConsoleLog NoUserJidFound) fresh_session"
    by blast
  from t1 a1 have c5: "connectionSuccess paired_sample" by blast
  from t2 a2 have c6: "connectionSuccess closed_while_sending" by blast
  have m: "sent_messages paired_sample =
     [(jid0, credsDocument ''{}''), (jid0, welcomeImage), (jid0, welcomeAudio), (jid0, finalMessage)]"
    by (simp add: sent_messages_def sample_paired)
  have so: "sends_of 0 closed_while_sending =
     script 0 jid0 [credsDocument ''{}'', welcomeImage, welcomeAudio, finalMessage]"
    by (simp add: sends_of_def sample_closed_while_sending script_def)
  show ?thesis
    using c5 c6 m so sample_closed_while_sending by (simp add: c1 c2 c3 c4 wc fr)
qed

section \<open>Sample runs\<close>

text \<open>A fresh session closed with reason 401, and one closed with reason 428.\<close>

theorem close_event_logout_or_reconnect_witness:
  "dir (step sample_env (ConnectionUpdate (closed_with (Some 401))) fresh_session) = Absent \<and>
   timers (step sample_env (ConnectionUpdate (closed_with (Some 401))) fresh_session) =
     [(60000, CleanupTimeout)] \<and>
   timers (step sample_env (ConnectionUpdate (closed_with (Some 428))) fresh_session) =
     [(60000, CleanupTimeout), (3000, Reconnect)]"
proof -
  have c: "connection (closed_with r) = Some Close" for r
    by (simp add: closed_with_def)
  have q: "\<not> truthy (qr (closed_with r)) \<or> qrSent fresh_session" for r
    by (simp add: closed_with_def truthy_def)
  have l1: "lastDisconnect (closed_with (Some 401)) = Some (loggedOut sample_env)"
    by (simp add: closed_with_def sample_env_def)
  have l2: "lastDisconnect (closed_with (Some 428)) \<noteq> Some (loggedOut sample_env)"
    by (simp add: closed_with_def sample_env_def)
  have t: "timers fresh_session = [(60000, CleanupTimeout)]"
    by (simp add: sample_route)
  from close_event_logout_or_reconnect [OF c q, of "Some 401" sample_env] l1
  have a: "dir (step sample_env (ConnectionUpdate (closed_with (Some 401))) fresh_session) = Absent"
    and b: "timers (step sample_env (ConnectionUpdate (closed_with (Some 401))) fresh_session) =
            timers fresh_session"
    by blast+
  from close_event_logout_or_reconnect [OF c q, of "Some 428" sample_env] l2
  have d: "timers (step sample_env (ConnectionUpdate (closed_with (Some 428))) fresh_session) =
            timers fresh_session @ [(3000, Reconnect)]"
    by blast
  show ?thesis
    using a b d unfolding t by (simp only: append.simps)
qed

text \<open>
  The user known at the open event; the user learned between the open event and the
  deferred run; and the user never learned.
\<close>

theorem open_event_onboards_now_or_once_later_witness:
  "connectionSuccess (step sample_env (ConnectionUpdate opened) known_user) \<and>
   trace (step sample_env (ConnectionUpdate opened) known_user) =
     [ConsoleLog Connected, SendMessage 0 jid0 welcomeImage] \<and>
   sent_messages
     (run sample_env (replicate 4 (SendSettled 0))
        (step sample_env (ConnectionUpdate opened) known_user)) =
     [(jid0, welcomeImage), (jid0, welcomeAudio), (jid0, finalMessage)] \<and>
   timers unresolved_open = [(60000, CleanupTimeout), (5000, DelayedWelcome)] \<and>
   trace unresolved_open = [ConsoleLog Connected, ConsoleLog JidNotFoundDelaying] \<and>
   trace (timer_fired sample_env (5000, DelayedWelcome) learned_later) =
     [ConsoleLog Connected, ConsoleLog JidNotFoundDelaying, SendMessage 0 jid0 welcomeImage] \<and>
   timers (timer_fired sample_env (5000, DelayedWelcome) learned_later) = [(60000, CleanupTimeout)] \<and>
   sent_messages
     (run sample_env (replicate 4 (SendSettled 0))
        (timer_fired sample_env (5000, DelayedWelcome) learned_later)) =
     [(jid0, welcomeImage), (jid0, welcomeAudio), (jid0, finalMessage)] \<and>
   trace (timer_fired sample_env (5000, DelayedWelcome) unresolved_open) =
     [ConsoleLog Connected, ConsoleLog JidNotFoundDelaying, ConsoleLog NoUserJidFound] \<and>
   timers (timer_fired sample_env (5000, DelayedWelcome) unresolved_open) = [(60000, CleanupTimeout)]"
proof -
  have c: "connection opened = Some Open" by (simp add: opened_def)
  have q: "\<not> truthy (qr opened) \<or> qrSent x" for x
    by (simp add: opened_def truthy_def)
  have j: "jid0 \<noteq> []" by (simp add: jid0_def)
  have ku: "known_user = fresh_session\<lparr>user_id := Some jid0\<rparr>"
    by (simp add: known_user_def)
  have kf: "runs known_user = []" "trace known_user = []" "dir known_user = Present None"
    "sent_messages known_user = []" "planned known_user = [welcomeImage, welcomeAudio, finalMessage]"
    "resolveJid sample_env known_user = Some jid0"
    by (simp_all add: ku sample_route sent_messages_def planned_def resolveJid_def sample_env_def jid0_def)
  have r0: "\<not> truthy (resolveJid sample_env fresh_session)"
    by (simp add: resolveJid_def truthy_def sample_route)
  note t1 = open_event_onboards_now_or_once_later
             [OF c q, of sample_env known_user jid0 learned_later jid0]
  note t2 = open_event_onboards_now_or_once_later
             [OF c q, of sample_env fresh_session jid0 unresolved_open jid0,
              folded unresolved_open_def]
  from t2 r0 have uo: "unresolved_open =
       setTimeout DelayedWelcome 5000
         (emit (ConsoleLog JidNotFoundDelaying)
            (emit (ConsoleLog Connected) (fresh_session\<lparr>connectionSuccess := True\<rparr>)))"
    by blast
  have uf: "timers unresolved_open = [(60000, CleanupTimeout), (5000, DelayedWelcome)]"
    "trace unresolved_open = [ConsoleLog Connected, ConsoleLog JidNotFoundDelaying]"
    "\<not> truthy (resolveJid sample_env unresolved_open)"
    by (simp_all add: uo sample_route resolveJid_def truthy_def)
  have ll: "learned_later = unresolved_open\<lparr>user_id := Some jid0\<rparr>"
    by (simp add: learned_later_def)
  have lf: "timers learned_later = [(60000, CleanupTimeout), (5000, DelayedWelcome)]"
    "trace learned_later = [ConsoleLog Connected, ConsoleLog JidNotFoundDelaying]"
    "runs learned_later = []" "dir learned_later = Present None"
    "sent_messages learned_later = []"
    "planned learned_later = [welcomeImage, welcomeAudio, finalMessage]"
    "resolveJid sample_env learned_later = Some jid0"
    by (simp_all add: ll uo sample_route sent_messages_def planned_def resolveJid_def
          sample_env_def jid0_def)
  have m1: "(5000, DelayedWelcome) \<in> set (timers learned_later)" by (simp add: lf)
  have m2: "(5000, DelayedWelcome) \<in> set (timers unresolved_open)" by (simp add: uf)
  from t1 kf(6) j have
    a1: "connectionSuccess (step sample_env (ConnectionUpdate opened) known_user)" and
    a2: "step sample_env (ConnectionUpdate opened) known_user =
              known_user\<lparr>connectionSuccess := True,
                runs := runs known_user @ [Suspended jid0 (first_stage (dir known_user))],
                trace := trace known_user @
                  [ConsoleLog Connected,
                   SendMessage (length (runs known_user)) jid0
                     (case dir known_user of Present (Some content) \<Rightarrow> credsDocument content
                      | _ \<Rightarrow> welcomeImage)]\<rparr>" and
    a3: "sent_messages
              (run sample_env (replicate 4 (SendSettled (length (runs known_user))))
                 (step sample_env (ConnectionUpdate opened) known_user)) =
              sent_messages known_user @
              map (Pair jid0)
                (takeWhile (\<lambda>p. \<not> sendMessage_throws sample_env jid0 p) (planned known_user))"
    by blast+
  from t1 m1 lf(7) j have
    b1: "timer_fired sample_env (5000, DelayedWelcome) learned_later =
                 learned_later\<lparr>timers := remove1 (5000, DelayedWelcome) (timers learned_later),
                   runs := runs learned_later @ [Suspended jid0 (first_stage (dir learned_later))],
                   trace := trace learned_later @
                     [SendMessage (length (runs learned_later)) jid0
                        (case dir learned_later of Present (Some content) \<Rightarrow> credsDocument content
                         | _ \<Rightarrow> welcomeImage)]\<rparr>" and
    b2: "sent_messages
                 (run sample_env (replicate 4 (SendSettled (length (runs learned_later))))
                    (timer_fired sample_env (5000, DelayedWelcome) learned_later)) =
                 sent_messages learned_later @
                 map (Pair jid0)
                   (takeWhile (\<lambda>p. \<not> sendMessage_throws sample_env jid0 p) (planned learned_later))"
    by blast+
  from t2 m2 uf(3) have
    d1: "timer_fired sample_env (5000, DelayedWelcome) unresolved_open =
                 emit (ConsoleLog NoUserJidFound)
                   (unresolved_open\<lparr>timers := remove1 (5000, DelayedWelcome) (timers unresolved_open)\<rparr>)"
    by blast
  have tw: "takeWhile (\<lambda>p. \<not> sendMessage_throws sample_env jid0 p)
              [welcomeImage, welcomeAudio, finalMessage] = [welcomeImage, welcomeAudio, finalMessage]"
    by (simp add: sample_env_def)
  have g1: "trace (step sample_env (ConnectionUpdate opened) known_user) =
     [ConsoleLog Connected, SendMessage 0 jid0 welcomeImage]"
    by (simp only: a2) (simp add: kf)
  have g2: "sent_messages
     (run sample_env (replicate 4 (SendSettled 0))
        (step sample_env (ConnectionUpdate opened) known_user)) =
     [(jid0, welcomeImage), (jid0, welcomeAudio), (jid0, finalMessage)]"
    using a3 unfolding kf list.size tw by (simp only: append_Nil list.map)
  have g3: "trace (timer_fired sample_env (5000, DelayedWelcome) learned_later) =
     [ConsoleLog Connected, ConsoleLog JidNotFoundDelaying, SendMessage 0 jid0 welcomeImage]"
    "timers (timer_fired sample_env (5000, DelayedWelcome) learned_later) = [(60000, CleanupTimeout)]"
    by (simp only: b1, simp add: lf)+
  have g4: "sent_messages
     (run sample_env (replicate 4 (SendSettled 0))
        (timer_fired sample_env (5000, DelayedWelcome) learned_later)) =
     [(jid0, welcomeImage), (jid0, welcomeAudio), (jid0, finalMessage)]"
    using b2 unfolding lf list.size tw by (simp only: append_Nil list.map)
  have g5: "trace (timer_fired sample_env (5000, DelayedWelcome) unresolved_open) =
     [ConsoleLog Connected, ConsoleLog JidNotFoundDelaying, ConsoleLog NoUserJidFound]"
    "timers (timer_fired sample_env (5000, DelayedWelcome) unresolved_open) = [(60000, CleanupTimeout)]"
    by (simp only: d1, simp add: uf)+
  from a1 g1 g2 uf(1,2) g3 g4 g5 show ?thesis by blast
qed

text \<open>Two pairing codes, each followed by an image.\<close>

theorem at_most_one_pairing_code_rendered_witness:
  "qr_calls
     (run sample_env
        [ConnectionUpdate (pairing_code ''2@abc''), ToDataURLSettled (Some ''data:image/png;base64,iVBOR''),
         ConnectionUpdate (pairing_code ''2@def''), ToDataURLSettled (Some ''data:image/png;base64,AAAA'')]
        (route 1700000000000 ''k3j9x2m1q'' Absent)) \<le> 1 \<and>
   step sample_env (ConnectionUpdate (pairing_code ''2@def''))
     (run sample_env ([] @ ConnectionUpdate (pairing_code ''2@abc'') # [UserKnown jid0]) fresh_session) =
     run sample_env ([] @ ConnectionUpdate (pairing_code ''2@abc'') # [UserKnown jid0]) fresh_session \<and>
   sent (res (run sample_env
                [ConnectionUpdate (pairing_code ''2@abc''),
                 ToDataURLSettled (Some ''data:image/png;base64,iVBOR'')] fresh_session)) =
     Some (200, QrBody True ''data:image/png;base64,iVBOR'' (sessionId 1700000000000 ''k3j9x2m1q'')
                  qr_message qr_instructions)"
proof -
  have c: "''2@abc'' \<noteq> []" by simp
  have o: "\<not> qrSent fresh_session \<and> \<not> headersSent (res fresh_session)"
    by (simp add: sample_route headersSent_def)
  have f: "statusCode (res fresh_session) = 200" "sid fresh_session = sessionId 1700000000000 ''k3j9x2m1q''"
    by (simp_all add: sample_route)
  note t = at_most_one_pairing_code_rendered
      [of sample_env
          "[ConnectionUpdate (pairing_code ''2@abc''), ToDataURLSettled (Some ''data:image/png;base64,iVBOR''),
            ConnectionUpdate (pairing_code ''2@def''), ToDataURLSettled (Some ''data:image/png;base64,AAAA'')]"
          1700000000000 "''k3j9x2m1q''" Absent "''2@abc''" "''2@def''" "[]" "[UserKnown jid0]"
          fresh_session "''data:image/png;base64,iVBOR''"]
  from t c o show ?thesis unfolding f by blast
qed

text \<open>A rejected rendering, then a second pairing code.\<close>

theorem render_failure_suppresses_later_codes_witness:
  "qrSent (step sample_env (ConnectionUpdate (pairing_code ''2@abc'')) fresh_session) \<and>
   sent (res (run sample_env
                (ConnectionUpdate (pairing_code ''2@abc'') # [UserKnown jid0] @
                 ToDataURLSettled None # [ConnectionUpdate (pairing_code ''2@def'')])
                fresh_session)) =
     Some (500, ErrorBody ''Failed to generate QR'') \<and>
   qr_calls (run sample_env
                (ConnectionUpdate (pairing_code ''2@abc'') # [UserKnown jid0] @
                 ToDataURLSettled None # [ConnectionUpdate (pairing_code ''2@def'')])
                fresh_session) = 0"
proof -
  have a: "\<not> qrSent fresh_session" by (simp add: sample_route)
  have b: "truthy (qr (pairing_code ''2@abc''))" by (simp add: pairing_code_def truthy_def)
  have c: "\<forall>e \<in> set [UserKnown jid0]. \<not> is_settle e" by simp
  have o: "\<not> headersSent (res (run sample_env (ConnectionUpdate (pairing_code ''2@abc'') # [UserKnown jid0])
                                fresh_session))"
    by (simp add: sample_route on_connection_update_def pairing_code_def truthy_def headersSent_def)
  have z: "qr_calls fresh_session = 0" by (simp add: sample_route qr_calls_def)
  note t = render_failure_suppresses_later_codes
     [OF a b c, of sample_env "[ConnectionUpdate (pairing_code ''2@def'')]" "''2@ghi''"]
  from t o show ?thesis unfolding z by blast
qed

end
